theory Spec2Isabelle
  imports Main
begin

section \<open>The training driver (src/main.py)\<close>

text \<open>
  The driver \<^verbatim>\<open>main\<close> sequences external collaborators: the configuration object (whose
  construction creates two directories), the environment, the agent, two collectors, a
  per-epoch dataset and dataloader, the telemetry sink and the checkpoint writer.
  The model threads an explicit state through the driver: the files of the data directory,
  the files of the model directory, the agent's parameters, the counter
  \<^verbatim>\<open>total_env_steps\<close> and the sequence of external calls made so far.
  What a collaborator returns is read from a record of functions (\<open>collab\<close>), so that every
  theorem holds for every behaviour of the collaborators.
  The driver's own raises are branches of the model: \<^verbatim>\<open>OSError\<close> from
  \<^verbatim>\<open>os.makedirs\<close>, \<^verbatim>\<open>ValueError\<close> from the constructor of the dataloader,
  \<^verbatim>\<open>StopIteration\<close> from \<^verbatim>\<open>next\<close>, \<^verbatim>\<open>IndexError\<close> from \<^verbatim>\<open>data[0]\<close> and
  \<^verbatim>\<open>ZeroDivisionError\<close> from \<^verbatim>\<open>i % config.test_every\<close>.
\<close>

subsection \<open>Strings: \<^verbatim>\<open>str\<close> of an integer and \<^verbatim>\<open>os.path.join\<close>\<close>

definition digit_char :: "nat \<Rightarrow> char" where
  "digit_char d = ''0123456789'' ! d"

fun digits :: "nat \<Rightarrow> string" where
  "digits n = (if n < 10 then [digit_char n] else digits (n div 10) @ [digit_char (n mod 10)])"

declare digits.simps [simp del]

text \<open>Python's \<^verbatim>\<open>str(i)\<close>, which the f-strings \<^verbatim>\<open>f"{i}.npz"\<close> and
  \<^verbatim>\<open>f"{total_env_steps}.pt"\<close> apply to an \<^verbatim>\<open>int\<close>.\<close>

definition py_str :: "int \<Rightarrow> string" where
  "py_str i = (if i < 0 then CHR ''-'' # digits (nat (- i)) else digits (nat i))"

text \<open>\<^verbatim>\<open>os.path.join(a, b)\<close> of posixpath, for two components.\<close>

definition path_join :: "string \<Rightarrow> string \<Rightarrow> string" where
  "path_join a b =
     (if b \<noteq> [] \<and> hd b = CHR ''/'' then b
      else if a = [] \<or> last a = CHR ''/'' then a @ b
      else a @ ''/'' @ b)"

subsection \<open>Configuration\<close>

record DreamerConfig =
  domain_name :: string
  task_name :: string
  obs_image_size :: "nat \<times> nat"
  action_repeats :: int
  base_dir :: string
  data_dir :: string
  model_dir :: string
  prefill_episodes :: int
  batch_size :: int
  batch_length :: int
  training_steps :: int
  training_device :: string
  test_every :: int
  collector_device :: string

text \<open>The field defaults of the dataclass; \<^verbatim>\<open>main\<close> constructs the configuration with
  no argument, so these are the values it runs with.\<close>

definition default_base_dir :: string where
  "default_base_dir = ''/home/scott/tmp/dreamer/'' @ ''cartpole'' @ ''_'' @ ''swingup'' @ ''/1/''"

definition default_config :: DreamerConfig where
  "default_config =
     \<lparr> domain_name = ''cartpole'',
       task_name = ''swingup'',
       obs_image_size = (64, 64),
       action_repeats = 2,
       base_dir = default_base_dir,
       data_dir = path_join default_base_dir ''episodes'',
       model_dir = path_join default_base_dir ''models'',
       prefill_episodes = 0,
       batch_size = 50,
       batch_length = 50,
       training_steps = 100,
       training_device = ''cuda'',
       test_every = 25,
       collector_device = ''cuda'' \<rparr>"

text \<open>The three file names the driver builds:
  \<^verbatim>\<open>os.path.join(config.data_dir, f"pre_{i}.npz")\<close>,
  \<^verbatim>\<open>os.path.join(config.data_dir, f"{i}.npz")\<close> and
  \<^verbatim>\<open>os.path.join(config.model_dir, f"{total_env_steps}.pt")\<close>.\<close>

definition prefill_path :: "DreamerConfig \<Rightarrow> nat \<Rightarrow> string" where
  "prefill_path cfg i = path_join (data_dir cfg) (''pre_'' @ py_str (int i) @ ''.npz'')"

definition episode_path :: "DreamerConfig \<Rightarrow> nat \<Rightarrow> string" where
  "episode_path cfg i = path_join (data_dir cfg) (py_str (int i) @ ''.npz'')"

definition model_path :: "DreamerConfig \<Rightarrow> int \<Rightarrow> string" where
  "model_path cfg t = path_join (model_dir cfg) (py_str t @ ''.pt'')"

subsection \<open>Episodes, batches, events and the driver's state\<close>

text \<open>An episode is the dictionary a collector returns for one trajectory; the driver
  reads its keys \<^verbatim>\<open>"reward"\<close> and \<^verbatim>\<open>"obs"\<close> and writes the whole of it to a file.\<close>

record ('o, 'a, 'r) episode =
  obs :: "'o list"
  action :: "'a list"
  reward :: "'r list"

text \<open>A batch is identified by the iterator it was drawn from (the iterators of one
  dataloader are numbered in the order of their creation, each with its own shuffle) and
  by its position in that iterator.\<close>

record batch =
  b_shuffle :: nat
  b_pos :: nat

record dataloader =
  n_batches :: nat
  iters_made :: nat

record data_iter =
  it_shuffle :: nat
  it_pos :: nat
  it_len :: nat

datatype error = OSError | ValueError | StopIteration | IndexError | ZeroDivisionError

text \<open>Which call of \<^verbatim>\<open>collect\<close> is meant: the prefill call of the training collector, its
  call in epoch \<open>i\<close>, or the call of the test collector in epoch \<open>i\<close>.\<close>

datatype collect_call = Prefill | TrainEpoch nat | TestEpoch nat

fun is_train_call :: "collect_call \<Rightarrow> bool" where
  "is_train_call Prefill = True"
| "is_train_call (TrainEpoch i) = True"
| "is_train_call (TestEpoch i) = False"

datatype ('o, 'a, 'r) event =
    is_MakeDirs: MakeDirs string
  | is_WandbInit: WandbInit string
  | is_EnvCreate: EnvCreate string string "nat \<times> nat" int
  | is_DreamerCreate: DreamerCreate string
  | is_CollectorCreate: CollectorCreate bool string
  | is_DatasetNew: DatasetNew "string \<Rightarrow> ('o, 'a, 'r) episode option"
  | is_Update: Update batch
  | is_Collect: Collect collect_call int bool int
  | is_SaveEpisode: SaveEpisode string "('o, 'a, 'r) episode"
  | is_WandbLog: WandbLog int 'r
  | is_SaveModel: SaveModel string "batch list"
  | is_WandbLogTest: WandbLogTest 'r "'o list"

text \<open>The agent's parameters are represented by the batches it has been updated on, in
  order: \<^verbatim>\<open>dreamer.update\<close> is the only operation of the driver that changes them.\<close>

record ('o, 'a, 'r) state =
  files :: "string \<Rightarrow> ('o, 'a, 'r) episode option"
  models :: "string \<Rightarrow> batch list option"
  agent :: "batch list"
  total_env_steps :: int
  trace :: "('o, 'a, 'r) event list"

type_synonym ('o, 'a, 'r) res = "error \<times> ('o, 'a, 'r) state + ('o, 'a, 'r) state"

definition state_of :: "('o, 'a, 'r) res \<Rightarrow> ('o, 'a, 'r) state" where
  "state_of r = (case r of Inl (e, s) \<Rightarrow> s | Inr s \<Rightarrow> s)"

definition raised :: "('o, 'a, 'r) res \<Rightarrow> error option" where
  "raised r = (case r of Inl (e, s) \<Rightarrow> Some e | Inr s \<Rightarrow> None)"

definition emit :: "('o, 'a, 'r) event \<Rightarrow> ('o, 'a, 'r) state \<Rightarrow> ('o, 'a, 'r) state" where
  "emit e st = st\<lparr>trace := trace st @ [e]\<rparr>"

subsection \<open>External collaborators\<close>

text \<open>
  \<^item> \<open>makedirs_raises p\<close>: whether \<^verbatim>\<open>os.makedirs(p, exist_ok=True)\<close> raises;
  \<^item> \<open>dataset_len fs d l\<close>: the length (\<^verbatim>\<open>len\<close>) of \<^verbatim>\<open>TrajectoryDataset(d, l)\<close> when the
    files are \<open>fs\<close>;
  \<^item> \<open>collect c n r\<close>: the episodes and the environment-step count returned by the call
    \<open>c\<close> of \<^verbatim>\<open>collect(target_num_episodes=n, random_action=r)\<close>;
  \<^item> \<open>denormalize_images\<close>: the image utility applied to the test episode's observations.
\<close>

record ('o, 'a, 'r) collab =
  makedirs_raises :: "string \<Rightarrow> bool"
  dataset_len :: "(string \<Rightarrow> ('o, 'a, 'r) episode option) \<Rightarrow> string \<Rightarrow> int \<Rightarrow> nat"
  collect :: "collect_call \<Rightarrow> int \<Rightarrow> bool \<Rightarrow> ('o, 'a, 'r) episode list \<times> int"
  denormalize_images :: "'o list \<Rightarrow> 'o list"

subsection \<open>The dataloader and its iterator\<close>

text \<open>
  \<^verbatim>\<open>torch.utils.data.DataLoader(dataset, batch_size=b, shuffle=True, num_workers=10)\<close> over
  a map-style dataset of length \<open>len\<close>. With \<^verbatim>\<open>shuffle=True\<close> the constructor builds a
  \<^verbatim>\<open>RandomSampler\<close>, which raises \<^verbatim>\<open>ValueError\<close> for a dataset of length 0, and a
  \<^verbatim>\<open>BatchSampler\<close>, which raises \<^verbatim>\<open>ValueError\<close> for a batch size that is not positive.
  \<^verbatim>\<open>drop_last\<close> has its default \<^verbatim>\<open>False\<close>, so one pass yields
  \<open>\<lceil>len / b\<rceil>\<close> batches.
\<close>

definition new_dataloader :: "nat \<Rightarrow> int \<Rightarrow> error + dataloader" where
  "new_dataloader len b =
     (if len = 0 \<or> b \<le> 0 then Inl ValueError
      else Inr \<lparr> n_batches = (len + nat b - 1) div nat b, iters_made = 0 \<rparr>)"

text \<open>\<^verbatim>\<open>iter(dataloader)\<close>: a fresh iterator at position 0, with a shuffle of its own.\<close>

definition iter_dl :: "dataloader \<Rightarrow> data_iter \<times> dataloader" where
  "iter_dl dl =
     (\<lparr> it_shuffle = iters_made dl, it_pos = 0, it_len = n_batches dl \<rparr>,
      dl\<lparr> iters_made := Suc (iters_made dl) \<rparr>)"

text \<open>\<^verbatim>\<open>next(data_iter)\<close>: \<open>None\<close> stands for \<^verbatim>\<open>StopIteration\<close>.\<close>

definition next_batch :: "data_iter \<Rightarrow> (batch \<times> data_iter) option" where
  "next_batch it =
     (if it_pos it < it_len it
      then Some (\<lparr> b_shuffle = it_shuffle it, b_pos = it_pos it \<rparr>, it\<lparr> it_pos := Suc (it_pos it) \<rparr>)
      else None)"

subsection \<open>The driver\<close>

text \<open>
  Each definition below follows the lines of \<^verbatim>\<open>main.py\<close> named above it. The calls that
  neither return a value the driver uses nor change the modelled state leave no event:
  \<^verbatim>\<open>wandb.define_metric\<close>, \<^verbatim>\<open>dreamer.agent.train()\<close>, \<^verbatim>\<open>reset_agent\<close> (both
  collectors are handed the one agent object they already hold), the moves of a batch to
  the training device, and \<^verbatim>\<open>print\<close>. The worker processes of the dataloader only
  prefetch; the driver itself is sequential.
\<close>

text \<open>\<^verbatim>\<open>DreamerConfig.__post_init__\<close> (lines 40-42).\<close>

definition post_init ::
  "DreamerConfig \<Rightarrow> ('o, 'a, 'r) collab \<Rightarrow> ('o, 'a, 'r) state \<Rightarrow> ('o, 'a, 'r) res" where
  "post_init cfg ext st =
     (let st1 = emit (MakeDirs (data_dir cfg)) st in
      if makedirs_raises ext (data_dir cfg) then Inl (OSError, st1)
      else
        let st2 = emit (MakeDirs (model_dir cfg)) st1 in
        if makedirs_raises ext (model_dir cfg) then Inl (OSError, st2)
        else Inr st2)"

text \<open>\<^verbatim>\<open>np.savez_compressed(path, **data)\<close>.\<close>

definition save_episode ::
  "string \<Rightarrow> ('o, 'a, 'r) episode \<Rightarrow> ('o, 'a, 'r) state \<Rightarrow> ('o, 'a, 'r) state" where
  "save_episode p d st = emit (SaveEpisode p d) (st\<lparr> files := (files st)(p \<mapsto> d) \<rparr>)"

text \<open>The loop over \<^verbatim>\<open>enumerate(prefill_data)\<close> (lines 80-81).\<close>

fun save_prefill ::
  "DreamerConfig \<Rightarrow> nat \<Rightarrow> ('o, 'a, 'r) episode list \<Rightarrow> ('o, 'a, 'r) state \<Rightarrow> ('o, 'a, 'r) state" where
  "save_prefill cfg i [] st = st"
| "save_prefill cfg i (d # ds) st =
     save_prefill cfg (Suc i) ds
       (save_episode (prefill_path cfg i) d st)"

text \<open>Lines 76-81.\<close>

definition prefill ::
  "DreamerConfig \<Rightarrow> ('o, 'a, 'r) collab \<Rightarrow> ('o, 'a, 'r) state \<Rightarrow> ('o, 'a, 'r) state" where
  "prefill cfg ext st =
     (if prefill_episodes cfg > 0 then
        (case collect ext Prefill (prefill_episodes cfg) True of
           (prefill_data, steps) \<Rightarrow>
             save_prefill cfg 0 prefill_data
               (emit (Collect Prefill (prefill_episodes cfg) True steps)
                  (st\<lparr> total_env_steps := steps \<rparr>)))
      else st)"

text \<open>\<^verbatim>\<open>dreamer.update(obs, action, reward)\<close> on the batch just drawn.\<close>

definition update :: "batch \<Rightarrow> ('o, 'a, 'r) state \<Rightarrow> ('o, 'a, 'r) state" where
  "update b st = emit (Update b) (st\<lparr> agent := agent st @ [b] \<rparr>)"

text \<open>The inner loop (lines 92-103), with the number of steps still to run.\<close>

fun train_loop ::
  "nat \<Rightarrow> dataloader \<Rightarrow> data_iter \<Rightarrow> ('o, 'a, 'r) state \<Rightarrow> ('o, 'a, 'r) res" where
  "train_loop 0 dl it st = Inr st"
| "train_loop (Suc k) dl it st =
     (case next_batch it of
        Some (b, it') \<Rightarrow> train_loop k dl it' (update b st)
      | None \<Rightarrow>
          (case iter_dl dl of
             (it2, dl2) \<Rightarrow>
               (case next_batch it2 of
                  Some (b, it') \<Rightarrow> train_loop k dl2 it' (update b st)
                | None \<Rightarrow> Inl (StopIteration, st))))"

text \<open>Lines 86-103: the dataset of the epoch (line 86), its dataloader (line 87, which may
  raise), the first iterator (line 90), then the inner loop.
  \<^verbatim>\<open>range(n)\<close> is empty for \<open>n \<le> 0\<close>, as \<open>nat n\<close> is 0.\<close>

definition train_phase ::
  "DreamerConfig \<Rightarrow> ('o, 'a, 'r) collab \<Rightarrow> ('o, 'a, 'r) state \<Rightarrow> ('o, 'a, 'r) res" where
  "train_phase cfg ext st =
     (let st1 = emit (DatasetNew (files st)) st
      in (case new_dataloader (dataset_len ext (files st) (data_dir cfg) (batch_length cfg))
                (batch_size cfg) of
            Inl e \<Rightarrow> Inl (e, st1)
          | Inr dataloader \<Rightarrow>
              (case iter_dl dataloader of
                 (data_iter, dl1) \<Rightarrow> train_loop (nat (training_steps cfg)) dl1 data_iter st1)))"

text \<open>Python's \<^verbatim>\<open>sum\<close>: a left fold from 0.\<close>

definition py_sum :: "'r::{zero,plus} list \<Rightarrow> 'r" where
  "py_sum xs = foldl (+) 0 xs"

text \<open>Lines 106-116.\<close>

definition collect_phase ::
  "DreamerConfig \<Rightarrow> ('o, 'a, 'r::{zero,plus}) collab \<Rightarrow> nat \<Rightarrow> ('o, 'a, 'r) state \<Rightarrow> ('o, 'a, 'r) res" where
  "collect_phase cfg ext i st =
     (case collect ext (TrainEpoch i) 1 False of
        (data, env_steps) \<Rightarrow>
          (let st1 = emit (Collect (TrainEpoch i) 1 False env_steps)
                       (st\<lparr> total_env_steps := total_env_steps st + env_steps \<rparr>)
           in (case data of
                 [] \<Rightarrow> Inl (IndexError, st1)
               | d # rest \<Rightarrow>
                   (let st2 = save_episode (episode_path cfg i) d st1
                    in Inr (emit (WandbLog (total_env_steps st2 * action_repeats cfg)
                                   (py_sum (reward d))) st2)))))"

text \<open>\<^verbatim>\<open>torch.save(dreamer.agent.state_dict(), path)\<close>.\<close>

definition save_model :: "string \<Rightarrow> ('o, 'a, 'r) state \<Rightarrow> ('o, 'a, 'r) state" where
  "save_model p st = emit (SaveModel p (agent st)) (st\<lparr> models := (models st)(p \<mapsto> agent st) \<rparr>)"

text \<open>Lines 119-134.\<close>

definition test_phase ::
  "DreamerConfig \<Rightarrow> ('o, 'a, 'r::{zero,plus}) collab \<Rightarrow> nat \<Rightarrow> ('o, 'a, 'r) state \<Rightarrow> ('o, 'a, 'r) res" where
  "test_phase cfg ext i st =
     (if test_every cfg = 0 then Inl (ZeroDivisionError, st)
      else if int i mod test_every cfg = 0 then
        (let st1 = save_model (model_path cfg (total_env_steps st)) st
         in (case collect ext (TestEpoch i) 1 False of
               (data, steps) \<Rightarrow>
                 (let st2 = emit (Collect (TestEpoch i) 1 False steps) st1
                  in (case data of
                        [] \<Rightarrow> Inl (IndexError, st2)
                      | d # rest \<Rightarrow>
                          Inr (emit (WandbLogTest (py_sum (reward d))
                                       (denormalize_images ext (obs d))) st2)))))
      else Inr st)"

text \<open>One pass of the outer loop's body (lines 85-134), for the epoch index \<open>i\<close>.\<close>

definition epoch ::
  "DreamerConfig \<Rightarrow> ('o, 'a, 'r::{zero,plus}) collab \<Rightarrow> nat \<Rightarrow> ('o, 'a, 'r) state \<Rightarrow> ('o, 'a, 'r) res" where
  "epoch cfg ext i st =
     (case train_phase cfg ext st of
        Inl x \<Rightarrow> Inl x
      | Inr st1 \<Rightarrow>
          (case collect_phase cfg ext i st1 of
             Inl x \<Rightarrow> Inl x
           | Inr st2 \<Rightarrow> test_phase cfg ext i st2))"

text \<open>The outer loop \<^verbatim>\<open>for i in trange(n)\<close>, from the index \<open>i\<close> with \<open>k\<close> epochs still to run.\<close>

fun epoch_loop ::
  "DreamerConfig \<Rightarrow> ('o, 'a, 'r::{zero,plus}) collab \<Rightarrow> nat \<Rightarrow> nat \<Rightarrow> ('o, 'a, 'r) state \<Rightarrow> ('o, 'a, 'r) res" where
  "epoch_loop cfg ext i 0 st = Inr st"
| "epoch_loop cfg ext i (Suc k) st =
     (case epoch cfg ext i st of
        Inl x \<Rightarrow> Inl x
      | Inr st1 \<Rightarrow> epoch_loop cfg ext (Suc i) k st1)"

text \<open>Lines 49-82: the set-up between the configuration and the outer loop.\<close>

definition startup ::
  "DreamerConfig \<Rightarrow> ('o, 'a, 'r) collab \<Rightarrow> ('o, 'a, 'r) state \<Rightarrow> ('o, 'a, 'r) state" where
  "startup cfg ext st =
     (let st1 = emit (WandbInit (''dreamer-'' @ domain_name cfg @ ''_'' @ task_name cfg)) st;
          st2 = emit (EnvCreate (domain_name cfg) (task_name cfg) (obs_image_size cfg) (action_repeats cfg)) st1;
          st3 = emit (DreamerCreate (training_device cfg)) st2;
          st4 = st3\<lparr> total_env_steps := 0 \<rparr>;
          st5 = emit (CollectorCreate True (collector_device cfg)) st4;
          st6 = prefill cfg ext st5
      in emit (CollectorCreate False (collector_device cfg)) st6)"

text \<open>The body of \<^verbatim>\<open>main\<close> for a configuration with the field values \<open>cfg\<close> and an outer
  loop of \<open>n\<close> epochs.\<close>

definition driver ::
  "DreamerConfig \<Rightarrow> ('o, 'a, 'r::{zero,plus}) collab \<Rightarrow> nat \<Rightarrow> ('o, 'a, 'r) state \<Rightarrow> ('o, 'a, 'r) res" where
  "driver cfg ext n st =
     (case post_init cfg ext st of
        Inl x \<Rightarrow> Inl x
      | Inr st1 \<Rightarrow> epoch_loop cfg ext 0 n (startup cfg ext st1))"

text \<open>The state in which the process starts: the files the two directories already hold,
  an agent that has not been updated, and no call made.\<close>

definition init_state ::
  "(string \<Rightarrow> ('o, 'a, 'r) episode option) \<Rightarrow> (string \<Rightarrow> batch list option) \<Rightarrow> ('o, 'a, 'r) state" where
  "init_state fs ms = \<lparr> files = fs, models = ms, agent = [], total_env_steps = 0, trace = [] \<rparr>"

text \<open>\<^verbatim>\<open>main\<close>: the default configuration and 1000 epochs.\<close>

definition main ::
  "('o, 'a, 'r::{zero,plus}) collab \<Rightarrow> ('o, 'a, 'r) state \<Rightarrow> ('o, 'a, 'r) res" where
  "main ext st = driver default_config ext 1000 st"

subsection \<open>Reading a trace\<close>

text \<open>The file sets the successive datasets were built on.\<close>

definition scan_of :: "('o, 'a, 'r) event \<Rightarrow> (string \<Rightarrow> ('o, 'a, 'r) episode option) list" where
  "scan_of e = (case e of DatasetNew fs \<Rightarrow> [fs] | _ \<Rightarrow> [])"

definition scans :: "('o, 'a, 'r) event list \<Rightarrow> (string \<Rightarrow> ('o, 'a, 'r) episode option) list" where
  "scans tr = concat (map scan_of tr)"

text \<open>The episode files written, with their contents, in the order of the writes.\<close>

definition save_of :: "('o, 'a, 'r) event \<Rightarrow> (string \<times> ('o, 'a, 'r) episode) list" where
  "save_of e = (case e of SaveEpisode p d \<Rightarrow> [(p, d)] | _ \<Rightarrow> [])"

definition saved :: "('o, 'a, 'r) event list \<Rightarrow> (string \<times> ('o, 'a, 'r) episode) list" where
  "saved tr = concat (map save_of tr)"

text \<open>The checkpoint files written, with their contents, in the order of the writes.\<close>

definition checkpoint_of :: "('o, 'a, 'r) event \<Rightarrow> (string \<times> batch list) list" where
  "checkpoint_of e = (case e of SaveModel p b \<Rightarrow> [(p, b)] | _ \<Rightarrow> [])"

definition checkpoints :: "('o, 'a, 'r) event list \<Rightarrow> (string \<times> batch list) list" where
  "checkpoints tr = concat (map checkpoint_of tr)"

definition write_all :: "(string \<Rightarrow> 'v option) \<Rightarrow> (string \<times> 'v) list \<Rightarrow> (string \<Rightarrow> 'v option)" where
  "write_all m ws = foldl (\<lambda>m w. m(fst w \<mapsto> snd w)) m ws"

text \<open>The batches the agent was updated on.\<close>

definition update_of :: "('o, 'a, 'r) event \<Rightarrow> batch list" where
  "update_of e = (case e of Update b \<Rightarrow> [b] | _ \<Rightarrow> [])"

definition updates :: "('o, 'a, 'r) event list \<Rightarrow> batch list" where
  "updates tr = concat (map update_of tr)"

text \<open>The environment steps returned by the calls of the training collector (the prefill
  call and the calls of the epochs); the calls of the test collector count for nothing.\<close>

definition train_steps_of :: "('o, 'a, 'r) event \<Rightarrow> int" where
  "train_steps_of e =
     (case e of Collect c n r steps \<Rightarrow> (if is_train_call c then steps else 0) | _ \<Rightarrow> 0)"

definition env_steps_sum :: "('o, 'a, 'r) event list \<Rightarrow> int" where
  "env_steps_sum tr = sum_list (map train_steps_of tr)"

text \<open>Checkpoints and evaluations, in order: an evaluation is a call of the test
  collector, and carries the index of its epoch.\<close>

datatype eval_step = Checkpoint | Evaluation nat

definition eval_of :: "('o, 'a, 'r) event \<Rightarrow> eval_step list" where
  "eval_of e =
     (case e of
        SaveModel p b \<Rightarrow> [Checkpoint]
      | Collect c n r steps \<Rightarrow> (case c of TestEpoch i \<Rightarrow> [Evaluation i] | _ \<Rightarrow> [])
      | _ \<Rightarrow> [])"

definition evals :: "('o, 'a, 'r) event list \<Rightarrow> eval_step list" where
  "evals tr = concat (map eval_of tr)"

text \<open>The steps of the training loop, in order: the construction of an epoch's dataset, an
  optimisation step, and the call of the training collector in epoch \<open>i\<close> for \<open>n\<close>
  episodes.\<close>

datatype loop_step = NewDataset | Optimise | CollectEpisodes nat int

definition loop_step_of :: "('o, 'a, 'r) event \<Rightarrow> loop_step list" where
  "loop_step_of e =
     (case e of
        DatasetNew fs \<Rightarrow> [NewDataset]
      | Update b \<Rightarrow> [Optimise]
      | Collect c n r steps \<Rightarrow> (case c of TrainEpoch i \<Rightarrow> [CollectEpisodes i n] | _ \<Rightarrow> [])
      | _ \<Rightarrow> [])"

definition loop_steps :: "('o, 'a, 'r) event list \<Rightarrow> loop_step list" where
  "loop_steps tr = concat (map loop_step_of tr)"

text \<open>A property of every event of a trace, given the events before it.\<close>

fun trace_ok ::
  "(('o, 'a, 'r) event list \<Rightarrow> ('o, 'a, 'r) event \<Rightarrow> bool) \<Rightarrow>
   ('o, 'a, 'r) event list \<Rightarrow> ('o, 'a, 'r) event list \<Rightarrow> bool" where
  "trace_ok ok pre [] = True"
| "trace_ok ok pre (e # es) = (ok pre e \<and> trace_ok ok (pre @ [e]) es)"

text \<open>What the telemetry and checkpoint events carry, in terms of the events before them:
  the logged figure is the step total times the action repeat; a checkpoint is named by
  the step total, holds the agent's parameters, and comes right after a log.\<close>

definition event_ok :: "DreamerConfig \<Rightarrow> ('o, 'a, 'r) event list \<Rightarrow> ('o, 'a, 'r) event \<Rightarrow> bool" where
  "event_ok cfg pre e =
     (case e of
        WandbLog v r \<Rightarrow> v = env_steps_sum pre * action_repeats cfg
      | SaveModel p b \<Rightarrow>
          p = model_path cfg (env_steps_sum pre) \<and> b = updates pre \<and> pre \<noteq> [] \<and>
          (case last pre of
             WandbLog v r \<Rightarrow> v = env_steps_sum pre * action_repeats cfg
           | _ \<Rightarrow> False)
      | _ \<Rightarrow> True)"

subsection \<open>Auxiliary functions on strings\<close>

definition digit_val :: "char \<Rightarrow> nat" where
  "digit_val c = of_char c - 48"

definition undigits :: "string \<Rightarrow> nat" where
  "undigits s = foldl (\<lambda>a c. 10 * a + digit_val c) 0 s"

definition dir_prefix :: "string \<Rightarrow> string" where
  "dir_prefix a = (if a = [] \<or> last a = CHR ''/'' then a else a @ ''/'')"

subsection \<open>Auxiliary notions for the inner loop, the prefill and an epoch\<close>

text \<open>The number of batches per pass of the dataloader of an epoch that starts in a state
  with the files \<open>fs\<close>.\<close>

definition epoch_batches ::
  "DreamerConfig \<Rightarrow> ('o, 'a, 'r) collab \<Rightarrow> (string \<Rightarrow> ('o, 'a, 'r) episode option) \<Rightarrow> nat" where
  "epoch_batches cfg ext fs =
     (dataset_len ext fs (data_dir cfg) (batch_length cfg) + nat (batch_size cfg) - 1) div
       nat (batch_size cfg)"

text \<open>The batch drawn \<open>j\<close> steps after an iterator of shuffle \<open>s\<close> stood at position \<open>p\<close>,
  when each pass has \<open>nb\<close> batches and every exhausted iterator is replaced by a fresh one.\<close>

definition nth_batch :: "nat \<Rightarrow> nat \<Rightarrow> nat \<Rightarrow> nat \<Rightarrow> batch" where
  "nth_batch nb s p j = \<lparr> b_shuffle = s + (p + j) div nb, b_pos = (p + j) mod nb \<rparr>"

text \<open>What the prefill call returns and writes (nothing when \<open>prefill_episodes \<le> 0\<close>).\<close>

definition prefill_steps :: "DreamerConfig \<Rightarrow> ('o, 'a, 'r) collab \<Rightarrow> int" where
  "prefill_steps cfg ext =
     (if prefill_episodes cfg > 0 then snd (collect ext Prefill (prefill_episodes cfg) True) else 0)"

definition prefill_writes ::
  "DreamerConfig \<Rightarrow> nat \<Rightarrow> ('o, 'a, 'r) episode list \<Rightarrow> (string \<times> ('o, 'a, 'r) episode) list" where
  "prefill_writes cfg i ds = map (\<lambda>(j, d). (prefill_path cfg j, d)) (enumerate i ds)"

definition prefill_saves ::
  "DreamerConfig \<Rightarrow> ('o, 'a, 'r) collab \<Rightarrow> (string \<times> ('o, 'a, 'r) episode) list" where
  "prefill_saves cfg ext =
     (if prefill_episodes cfg > 0
      then prefill_writes cfg 0 (fst (collect ext Prefill (prefill_episodes cfg) True))
      else [])"

text \<open>What the training collector returns in epoch \<open>i\<close>: the step count, and the episode
  the driver keeps (\<^verbatim>\<open>data[0]\<close>) with the file it goes to.\<close>

definition epoch_steps :: "('o, 'a, 'r) collab \<Rightarrow> nat \<Rightarrow> int" where
  "epoch_steps ext i = snd (collect ext (TrainEpoch i) 1 False)"

definition epoch_episode :: "('o, 'a, 'r) collab \<Rightarrow> nat \<Rightarrow> ('o, 'a, 'r) episode" where
  "epoch_episode ext i = hd (fst (collect ext (TrainEpoch i) 1 False))"

definition epoch_save ::
  "DreamerConfig \<Rightarrow> ('o, 'a, 'r) collab \<Rightarrow> nat \<Rightarrow> string \<times> ('o, 'a, 'r) episode" where
  "epoch_save cfg ext i = (episode_path cfg i, epoch_episode ext i)"

text \<open>The calls made between the configuration and the outer loop, and the state in which
  the outer loop is entered when both directories could be created.\<close>

definition startup_events :: "DreamerConfig \<Rightarrow> ('o, 'a, 'r) collab \<Rightarrow> ('o, 'a, 'r) event list" where
  "startup_events cfg ext =
     [WandbInit (''dreamer-'' @ domain_name cfg @ ''_'' @ task_name cfg),
      EnvCreate (domain_name cfg) (task_name cfg) (obs_image_size cfg) (action_repeats cfg),
      DreamerCreate (training_device cfg),
      CollectorCreate True (collector_device cfg)] @
     (if prefill_episodes cfg > 0
      then Collect Prefill (prefill_episodes cfg) True (prefill_steps cfg ext) #
           map (\<lambda>w. SaveEpisode (fst w) (snd w)) (prefill_saves cfg ext)
      else []) @
     [CollectorCreate False (collector_device cfg)]"

definition started ::
  "DreamerConfig \<Rightarrow> ('o, 'a, 'r) collab \<Rightarrow> ('o, 'a, 'r) state \<Rightarrow> ('o, 'a, 'r) state" where
  "started cfg ext st =
     startup cfg ext (emit (MakeDirs (model_dir cfg)) (emit (MakeDirs (data_dir cfg)) st))"

text \<open>The invariant that ties the counter, the agent and the model directory to the trace.\<close>

definition consistent ::
  "DreamerConfig \<Rightarrow> (string \<Rightarrow> batch list option) \<Rightarrow> ('o, 'a, 'r) state \<Rightarrow> bool" where
  "consistent cfg ms s \<longleftrightarrow>
     total_env_steps s = env_steps_sum (trace s) \<and>
     agent s = updates (trace s) \<and>
     trace_ok (event_ok cfg) [] (trace s) \<and>
     models s = write_all ms (checkpoints (trace s))"

subsection \<open>Concrete collaborators and configurations\<close>

text \<open>A small configuration, and collaborators whose dataset always has length 100 (two
  batches of 50 per pass) and whose collectors return one episode of three environment steps
  at every call.\<close>

definition demo_config :: DreamerConfig where
  "demo_config =
     default_config\<lparr> data_dir := ''d'', model_dir := ''m'', training_steps := 3, test_every := 2 \<rparr>"

definition demo_episode :: "(nat, nat, int) episode" where
  "demo_episode = \<lparr> obs = [7], action = [1], reward = [1] \<rparr>"

definition demo_collab :: "(nat, nat, int) collab" where
  "demo_collab =
     \<lparr> makedirs_raises = (\<lambda>p. False),
       dataset_len = (\<lambda>fs d l. 100),
       collect = (\<lambda>c n r. ([demo_episode], 3)),
       denormalize_images = (\<lambda>x. x) \<rparr>"

text \<open>The small configuration with a prefill of one episode.\<close>

definition prefill_config :: DreamerConfig where
  "prefill_config = demo_config\<lparr> prefill_episodes := 1 \<rparr>"

text \<open>Collaborators whose dataset is empty as long as the data directory has no file
  \<^verbatim>\<open>0.npz\<close>, and has length 60 afterwards.\<close>

definition empty_store_collab :: "(nat, nat, int) collab" where
  "empty_store_collab =
     demo_collab\<lparr> dataset_len :=
       (\<lambda>fs d l. case fs (path_join d ''0.npz'') of None \<Rightarrow> 0 | Some e \<Rightarrow> 60) \<rparr>"

text \<open>Collaborators for which the model directory cannot be created.\<close>

definition readonly_collab :: "(nat, nat, int) collab" where
  "readonly_collab = demo_collab\<lparr> makedirs_raises := (\<lambda>p. p = ''m'') \<rparr>"

text \<open>The invariant of the outer loop about the directory creations: both come first, and
  none follows.\<close>

definition dirs_first :: "DreamerConfig \<Rightarrow> ('o, 'a, 'r) state \<Rightarrow> bool" where
  "dirs_first cfg s \<longleftrightarrow>
     2 \<le> length (trace s) \<and>
     take 2 (trace s) = [MakeDirs (data_dir cfg), MakeDirs (model_dir cfg)] \<and>
     filter is_MakeDirs (drop 2 (trace s)) = []"

text \<open>The steps of one complete epoch, and the checkpoint and evaluation of an epoch that
  tests.\<close>

definition epoch_loop_steps :: "DreamerConfig \<Rightarrow> nat \<Rightarrow> loop_step list" where
  "epoch_loop_steps cfg i =
     NewDataset # replicate (nat (training_steps cfg)) Optimise @ [CollectEpisodes i 1]"

definition epoch_evals :: "DreamerConfig \<Rightarrow> nat \<Rightarrow> eval_step list" where
  "epoch_evals cfg i = (if int i mod test_every cfg = 0 then [Checkpoint, Evaluation i] else [])"

text \<open>Auxiliary notions for the data directory: each dataset after the first is built on a
  file set that holds the episode of the epoch before; the episode files a run of \<open>n\<close> epochs
  writes, in order; and the files written so far still hold what was written.\<close>

definition fresh_scans ::
  "DreamerConfig \<Rightarrow> ('o, 'a, 'r) collab \<Rightarrow> (string \<Rightarrow> ('o, 'a, 'r) episode option) list \<Rightarrow> bool" where
  "fresh_scans cfg ext sc \<longleftrightarrow>
     (\<forall>k. Suc k < length sc \<longrightarrow> (sc ! Suc k) (episode_path cfg k) = Some (epoch_episode ext k))"

text \<open>The constructions of a dataset (with the file set it is built on) and the writes of
  an episode file, in order; and what they are for \<open>n\<close> complete epochs that start from the
  files \<open>fs\<close>: the prefill writes, then for each epoch the construction of its dataset on
  all the files written so far, followed by the write of its episode.\<close>

datatype ('o, 'a, 'r) store_step =
    Scanned "string \<Rightarrow> ('o, 'a, 'r) episode option"
  | Wrote string "('o, 'a, 'r) episode"

definition store_step_of :: "('o, 'a, 'r) event \<Rightarrow> ('o, 'a, 'r) store_step list" where
  "store_step_of e =
     (case e of DatasetNew fs \<Rightarrow> [Scanned fs] | SaveEpisode p d \<Rightarrow> [Wrote p d] | _ \<Rightarrow> [])"

definition store_steps :: "('o, 'a, 'r) event list \<Rightarrow> ('o, 'a, 'r) store_step list" where
  "store_steps tr = concat (map store_step_of tr)"

definition schedule ::
  "DreamerConfig \<Rightarrow> ('o, 'a, 'r) collab \<Rightarrow> nat \<Rightarrow> (string \<times> ('o, 'a, 'r) episode) list" where
  "schedule cfg ext n = prefill_saves cfg ext @ map (epoch_save cfg ext) [0..<n]"

definition agree :: "('o, 'a, 'r) state \<Rightarrow> bool" where
  "agree s \<longleftrightarrow> (\<forall>w \<in> set (saved (trace s)). files s (fst w) = Some (snd w))"

definition epoch_store_steps ::
  "DreamerConfig \<Rightarrow> ('o, 'a, 'r) collab \<Rightarrow> (string \<Rightarrow> ('o, 'a, 'r) episode option) \<Rightarrow> nat \<Rightarrow>
   ('o, 'a, 'r) store_step list" where
  "epoch_store_steps cfg ext fs i =
     [Scanned (write_all fs (schedule cfg ext i)), Wrote (episode_path cfg i) (epoch_episode ext i)]"

definition store_schedule ::
  "DreamerConfig \<Rightarrow> ('o, 'a, 'r) collab \<Rightarrow> (string \<Rightarrow> ('o, 'a, 'r) episode option) \<Rightarrow> nat \<Rightarrow>
   ('o, 'a, 'r) store_step list" where
  "store_schedule cfg ext fs n =
     map (\<lambda>w. Wrote (fst w) (snd w)) (prefill_saves cfg ext) @
     concat (map (epoch_store_steps cfg ext fs) [0..<n])"

section \<open>Strings\<close>

lemma digit_val_digit_char: "d < 10 \<Longrightarrow> digit_val (digit_char d) = d"
proof -
  assume "d < 10"
  then have "d \<in> {0,1,2,3,4,5,6,7,8,9}" by auto
  then show ?thesis
    by (auto simp: digit_val_def digit_char_def)
qed

lemma undigits_snoc: "undigits (s @ [c]) = 10 * undigits s + digit_val c"
  by (simp add: undigits_def)

lemma undigits_digits: "undigits (digits n) = n"
proof (induction n rule: digits.induct)
  case (1 n)
  show ?case
  proof (cases "n < 10")
    case True
    then show ?thesis
      by (subst digits.simps) (simp add: undigits_def digit_val_digit_char)
  next
    case False
    then have "undigits (digits (n div 10)) = n div 10" using 1 by simp
    with False show ?thesis
      by (subst digits.simps) (simp add: undigits_snoc digit_val_digit_char)
  qed
qed

lemma digits_inj: "digits m = digits n \<Longrightarrow> m = n"
  by (metis undigits_digits)

lemma digit_char_in: "d < 10 \<Longrightarrow> digit_char d \<in> set ''0123456789''"
  unfolding digit_char_def by (rule nth_mem) simp

lemma set_digits: "set (digits n) \<subseteq> set ''0123456789''"
proof (induction n rule: digits.induct)
  case (1 n)
  show ?case
  proof (cases "n < 10")
    case True
    then show ?thesis
      using digit_char_in [of n] by (subst digits.simps) simp
  next
    case False
    then have "set (digits (n div 10)) \<subseteq> set ''0123456789''" using 1 by simp
    moreover have "digit_char (n mod 10) \<in> set ''0123456789''"
      by (rule digit_char_in) simp
    ultimately show ?thesis using False
      by (subst digits.simps) simp
  qed
qed

lemma digits_nonempty: "digits n \<noteq> []"
  by (subst digits.simps) simp

lemma hd_digits: "hd (digits n) \<in> set ''0123456789''"
  using set_digits [of n] digits_nonempty [of n] by (meson hd_in_set subsetD)

lemma py_str_int: "py_str (int i) = digits i"
  by (simp add: py_str_def)

lemma path_join_rel: "b \<noteq> [] \<Longrightarrow> hd b \<noteq> CHR ''/'' \<Longrightarrow> path_join a b = dir_prefix a @ b"
  by (simp add: path_join_def dir_prefix_def)

lemma episode_path_rel: "episode_path cfg i = dir_prefix (data_dir cfg) @ digits i @ ''.npz''"
proof -
  have "hd (digits i @ ''.npz'') \<noteq> CHR ''/''"
    using hd_digits [of i] digits_nonempty [of i] by auto
  then show ?thesis
    by (simp add: episode_path_def py_str_int path_join_rel digits_nonempty)
qed

lemma prefill_path_rel: "prefill_path cfg i = dir_prefix (data_dir cfg) @ ''pre_'' @ digits i @ ''.npz''"
  by (simp add: prefill_path_def py_str_int path_join_rel)

lemma episode_path_inj: "episode_path cfg i = episode_path cfg j \<longleftrightarrow> i = j"
  by (auto simp: episode_path_rel dest: digits_inj)

lemma prefill_path_inj: "prefill_path cfg i = prefill_path cfg j \<longleftrightarrow> i = j"
  by (auto simp: prefill_path_rel dest: digits_inj)

lemma prefill_path_neq_episode_path: "prefill_path cfg i \<noteq> episode_path cfg j"
proof
  assume "prefill_path cfg i = episode_path cfg j"
  then have "''pre_'' @ digits i @ ''.npz'' = digits j @ ''.npz''"
    by (simp add: episode_path_rel prefill_path_rel)
  then have "hd (digits j) = CHR ''p''"
    using digits_nonempty [of j] by (cases "digits j") auto
  then show False using hd_digits [of j] by simp
qed

section \<open>Projections\<close>

lemma scans_append [simp]: "scans (a @ b) = scans a @ scans b"
  by (simp add: scans_def)
lemma saved_append [simp]: "saved (a @ b) = saved a @ saved b"
  by (simp add: saved_def)
lemma checkpoints_append [simp]: "checkpoints (a @ b) = checkpoints a @ checkpoints b"
  by (simp add: checkpoints_def)
lemma updates_append [simp]: "updates (a @ b) = updates a @ updates b"
  by (simp add: updates_def)
lemma env_steps_sum_append [simp]: "env_steps_sum (a @ b) = env_steps_sum a + env_steps_sum b"
  by (simp add: env_steps_sum_def)
lemma evals_append [simp]: "evals (a @ b) = evals a @ evals b"
  by (simp add: evals_def)
lemma loop_steps_append [simp]: "loop_steps (a @ b) = loop_steps a @ loop_steps b"
  by (simp add: loop_steps_def)

lemma scans_Nil [simp]: "scans [] = []" by (simp add: scans_def)
lemma saved_Nil [simp]: "saved [] = []" by (simp add: saved_def)
lemma checkpoints_Nil [simp]: "checkpoints [] = []" by (simp add: checkpoints_def)
lemma updates_Nil [simp]: "updates [] = []" by (simp add: updates_def)
lemma env_steps_sum_Nil [simp]: "env_steps_sum [] = 0" by (simp add: env_steps_sum_def)
lemma evals_Nil [simp]: "evals [] = []" by (simp add: evals_def)
lemma loop_steps_Nil [simp]: "loop_steps [] = []" by (simp add: loop_steps_def)

lemma scans_Cons [simp]: "scans (e # tr) = scan_of e @ scans tr" by (simp add: scans_def)
lemma saved_Cons [simp]: "saved (e # tr) = save_of e @ saved tr" by (simp add: saved_def)
lemma checkpoints_Cons [simp]: "checkpoints (e # tr) = checkpoint_of e @ checkpoints tr"
  by (simp add: checkpoints_def)
lemma updates_Cons [simp]: "updates (e # tr) = update_of e @ updates tr" by (simp add: updates_def)
lemma env_steps_sum_Cons [simp]: "env_steps_sum (e # tr) = train_steps_of e + env_steps_sum tr"
  by (simp add: env_steps_sum_def)
lemma evals_Cons [simp]: "evals (e # tr) = eval_of e @ evals tr" by (simp add: evals_def)
lemma loop_steps_Cons [simp]: "loop_steps (e # tr) = loop_step_of e @ loop_steps tr"
  by (simp add: loop_steps_def)

lemma updates_map_Update [simp]: "updates (map Update bs) = bs"
  by (induction bs) (simp_all add: update_of_def)
lemma scans_map_Update [simp]: "scans (map Update bs) = []"
  by (induction bs) (simp_all add: scan_of_def)
lemma saved_map_Update [simp]: "saved (map Update bs) = []"
  by (induction bs) (simp_all add: save_of_def)
lemma checkpoints_map_Update [simp]: "checkpoints (map Update bs) = []"
  by (induction bs) (simp_all add: checkpoint_of_def)
lemma env_steps_sum_map_Update [simp]: "env_steps_sum (map Update bs) = 0"
  by (induction bs) (simp_all add: train_steps_of_def)
lemma evals_map_Update [simp]: "evals (map Update bs) = []"
  by (induction bs) (simp_all add: eval_of_def)
lemma loop_steps_map_Update [simp]: "loop_steps (map Update bs) = replicate (length bs) Optimise"
  by (induction bs) (simp_all add: loop_step_of_def)

lemma trace_ok_append: "trace_ok ok pre (a @ b) = (trace_ok ok pre a \<and> trace_ok ok (pre @ a) b)"
  by (induction a arbitrary: pre) auto

lemma trace_ok_map_Update: "(\<And>pre b. ok pre (Update b)) \<Longrightarrow> trace_ok ok pre (map Update bs)"
  by (induction bs arbitrary: pre) auto

section \<open>The inner loop\<close>

lemma state_of_simps [simp]: "state_of (Inl (e, s)) = s" "state_of (Inr s) = s"
  by (simp_all add: state_of_def)

lemma raised_simps [simp]: "raised (Inl (e, s)) = Some e" "raised (Inr s) = None"
  by (simp_all add: raised_def)

lemma div_mod_add_self:
  fixes n a :: nat
  assumes "0 < n"
  shows "(n + a) div n = Suc (a div n)" "(n + a) mod n = a mod n"
proof -
  have "n \<noteq> 0" using assms by simp
  then show "(n + a) div n = Suc (a div n)" by (simp add: div_add_self1)
  show "(n + a) mod n = a mod n" by simp
qed

lemma nth_batch_wrap:
  assumes "0 < nb" "m = Suc s"
  shows "nth_batch nb s nb (Suc j) = nth_batch nb m (Suc 0) j"
  unfolding nth_batch_def using div_mod_add_self [OF assms(1), of "Suc j"] assms(2)
  by simp

lemma map_upt_Suc0: "map f [0..<Suc k] = f 0 # map (\<lambda>j. f (Suc j)) [0..<k]"
  by (simp only: map_upt_Suc)

lemma train_loop_batches:
  assumes "0 < n_batches dl" "it_len it = n_batches dl" "iters_made dl = Suc (it_shuffle it)"
    "it_pos it \<le> it_len it"
  shows "train_loop k dl it st =
           Inr (st\<lparr>agent := agent st @ map (nth_batch (n_batches dl) (it_shuffle it) (it_pos it)) [0..<k],
                   trace := trace st @ map Update (map (nth_batch (n_batches dl) (it_shuffle it) (it_pos it)) [0..<k])\<rparr>)"
  using assms
proof (induction k arbitrary: dl it st)
  case 0
  show ?case by simp
next
  case (Suc k)
  let ?nb = "n_batches dl"
  show ?case
  proof (cases "it_pos it < it_len it")
    case True
    let ?it' = "it\<lparr> it_pos := Suc (it_pos it) \<rparr>"
    let ?b = "\<lparr> b_shuffle = it_shuffle it, b_pos = it_pos it \<rparr>"
    have nb: "next_batch it = Some (?b, ?it')" using True by (simp add: next_batch_def)
    have ih: "train_loop k dl ?it' (update ?b st) =
           Inr ((update ?b st)\<lparr>agent := agent (update ?b st) @ map (nth_batch ?nb (it_shuffle ?it') (it_pos ?it')) [0..<k],
                   trace := trace (update ?b st) @ map Update (map (nth_batch ?nb (it_shuffle ?it') (it_pos ?it')) [0..<k])\<rparr>)"
      by (rule Suc.IH) (use Suc.prems True in auto)
    have b0: "nth_batch ?nb (it_shuffle it) (it_pos it) 0 = ?b"
      using True Suc.prems by (simp add: nth_batch_def)
    have bS: "\<And>j. nth_batch ?nb (it_shuffle it) (it_pos it) (Suc j) = nth_batch ?nb (it_shuffle it) (Suc (it_pos it)) j"
      by (simp add: nth_batch_def)
    show ?thesis
      by (simp only: map_upt_Suc0 b0 bS train_loop.simps nb ih option.case prod.case)
         (simp add: update_def emit_def)
  next
    case False
    then have pos: "it_pos it = ?nb" using Suc.prems by simp
    have nb: "next_batch it = None" using False by (simp add: next_batch_def)
    let ?it2 = "\<lparr> it_shuffle = iters_made dl, it_pos = 0, it_len = ?nb \<rparr>"
    let ?dl2 = "dl\<lparr> iters_made := Suc (iters_made dl) \<rparr>"
    have i2: "iter_dl dl = (?it2, ?dl2)" by (simp add: iter_dl_def)
    let ?it' = "?it2\<lparr> it_pos := Suc 0 \<rparr>"
    let ?b = "\<lparr> b_shuffle = iters_made dl, b_pos = 0 \<rparr>"
    have nb2: "next_batch ?it2 = Some (?b, ?it')" using Suc.prems by (simp add: next_batch_def)
    have ih: "train_loop k ?dl2 ?it' (update ?b st) =
           Inr ((update ?b st)\<lparr>agent := agent (update ?b st) @ map (nth_batch (n_batches ?dl2) (it_shuffle ?it') (it_pos ?it')) [0..<k],
                   trace := trace (update ?b st) @ map Update (map (nth_batch (n_batches ?dl2) (it_shuffle ?it') (it_pos ?it')) [0..<k])\<rparr>)"
      by (rule Suc.IH) (use Suc.prems in auto)
    have b0: "nth_batch ?nb (it_shuffle it) (it_pos it) 0 = ?b"
      using pos Suc.prems by (simp add: nth_batch_def)
    have bS: "\<And>j. nth_batch ?nb (it_shuffle it) (it_pos it) (Suc j) = nth_batch ?nb (iters_made dl) (Suc 0) j"
      using Suc.prems(1,3) unfolding pos by (rule nth_batch_wrap)
    show ?thesis
      by (simp only: map_upt_Suc0 b0 bS train_loop.simps nb i2 nb2 ih option.case prod.case)
         (simp add: update_def emit_def)
  qed
qed


lemma epoch_batches_pos:
  assumes "0 < dataset_len ext fs (data_dir cfg) (batch_length cfg)" "0 < batch_size cfg"
  shows "0 < epoch_batches cfg ext fs"
proof -
  let ?l = "dataset_len ext fs (data_dir cfg) (batch_length cfg)"
  let ?b = "nat (batch_size cfg)"
  have b: "0 < ?b" using assms(2) by simp
  have "?b \<le> ?l + ?b - 1" using assms(1) by simp
  then have "?b div ?b \<le> (?l + ?b - 1) div ?b" by (rule div_le_mono)
  then show ?thesis using b by (simp add: epoch_batches_def)
qed

lemma train_phase_no_loader:
  assumes "dataset_len ext (files st) (data_dir cfg) (batch_length cfg) = 0 \<or> batch_size cfg \<le> 0"
  shows "train_phase cfg ext st = Inl (ValueError, emit (DatasetNew (files st)) st)"
  using assms by (auto simp: train_phase_def new_dataloader_def)

lemma train_phase_batches:
  assumes "0 < dataset_len ext (files st) (data_dir cfg) (batch_length cfg)" "0 < batch_size cfg"
  shows "train_phase cfg ext st =
     Inr (st\<lparr>agent := agent st @
                 map (nth_batch (epoch_batches cfg ext (files st)) 0 0) [0..<nat (training_steps cfg)],
             trace := trace st @ DatasetNew (files st) #
                 map Update (map (nth_batch (epoch_batches cfg ext (files st)) 0 0)
                   [0..<nat (training_steps cfg)])\<rparr>)"
proof -
  let ?nb = "epoch_batches cfg ext (files st)"
  let ?dl = "\<lparr> n_batches = ?nb, iters_made = Suc 0 \<rparr>"
  let ?it = "\<lparr> it_shuffle = 0, it_pos = 0, it_len = ?nb \<rparr>"
  have pos: "0 < ?nb" using assms by (rule epoch_batches_pos)
  have "train_loop (nat (training_steps cfg)) ?dl ?it (emit (DatasetNew (files st)) st) =
      Inr ((emit (DatasetNew (files st)) st)\<lparr>agent := agent (emit (DatasetNew (files st)) st) @
             map (nth_batch (n_batches ?dl) (it_shuffle ?it) (it_pos ?it)) [0..<nat (training_steps cfg)],
           trace := trace (emit (DatasetNew (files st)) st) @
             map Update (map (nth_batch (n_batches ?dl) (it_shuffle ?it) (it_pos ?it)) [0..<nat (training_steps cfg)])\<rparr>)"
    by (rule train_loop_batches) (use pos in simp_all)
  moreover have "new_dataloader (dataset_len ext (files st) (data_dir cfg) (batch_length cfg)) (batch_size cfg) =
      Inr \<lparr> n_batches = ?nb, iters_made = 0 \<rparr>"
    using assms by (simp add: new_dataloader_def epoch_batches_def)
  ultimately show ?thesis
    by (simp add: train_phase_def iter_dl_def emit_def del: train_loop.simps)
qed

section \<open>One epoch\<close>

lemma epoch_cases [case_names no_loader no_episode zero_div no_test test_no_episode test]:
  fixes cfg :: DreamerConfig and ext :: "('o, 'a, 'r::{zero,plus}) collab" and s :: "('o, 'a, 'r) state"
  assumes no_loader:
     "dataset_len ext (files s) (data_dir cfg) (batch_length cfg) = 0 \<or> batch_size cfg \<le> 0 \<Longrightarrow>
      epoch cfg ext j s = Inl (ValueError, s\<lparr>trace := trace s @ [DatasetNew (files s)]\<rparr>) \<Longrightarrow> concl"
  and no_episode: "\<And>bs. length bs = nat (training_steps cfg) \<Longrightarrow>
      fst (collect ext (TrainEpoch j) 1 False) = [] \<Longrightarrow>
      epoch cfg ext j s =
        Inl (IndexError,
             s\<lparr>agent := agent s @ bs,
               total_env_steps := total_env_steps s + epoch_steps ext j,
               trace := trace s @ DatasetNew (files s) # map Update bs @
                 [Collect (TrainEpoch j) 1 False (epoch_steps ext j)]\<rparr>) \<Longrightarrow> concl"
  and zero_div: "\<And>bs. length bs = nat (training_steps cfg) \<Longrightarrow>
      fst (collect ext (TrainEpoch j) 1 False) \<noteq> [] \<Longrightarrow> test_every cfg = 0 \<Longrightarrow>
      epoch cfg ext j s =
        Inl (ZeroDivisionError,
             s\<lparr>files := (files s)(episode_path cfg j \<mapsto> epoch_episode ext j),
               agent := agent s @ bs,
               total_env_steps := total_env_steps s + epoch_steps ext j,
               trace := trace s @ DatasetNew (files s) # map Update bs @
                 [Collect (TrainEpoch j) 1 False (epoch_steps ext j),
                  SaveEpisode (episode_path cfg j) (epoch_episode ext j),
                  WandbLog ((total_env_steps s + epoch_steps ext j) * action_repeats cfg)
                    (py_sum (reward (epoch_episode ext j)))]\<rparr>) \<Longrightarrow> concl"
  and no_test: "\<And>bs. length bs = nat (training_steps cfg) \<Longrightarrow>
      fst (collect ext (TrainEpoch j) 1 False) \<noteq> [] \<Longrightarrow> test_every cfg \<noteq> 0 \<Longrightarrow>
      int j mod test_every cfg \<noteq> 0 \<Longrightarrow>
      epoch cfg ext j s =
        Inr (s\<lparr>files := (files s)(episode_path cfg j \<mapsto> epoch_episode ext j),
               agent := agent s @ bs,
               total_env_steps := total_env_steps s + epoch_steps ext j,
               trace := trace s @ DatasetNew (files s) # map Update bs @
                 [Collect (TrainEpoch j) 1 False (epoch_steps ext j),
                  SaveEpisode (episode_path cfg j) (epoch_episode ext j),
                  WandbLog ((total_env_steps s + epoch_steps ext j) * action_repeats cfg)
                    (py_sum (reward (epoch_episode ext j)))]\<rparr>) \<Longrightarrow> concl"
  and test_no_episode: "\<And>bs. length bs = nat (training_steps cfg) \<Longrightarrow>
      fst (collect ext (TrainEpoch j) 1 False) \<noteq> [] \<Longrightarrow> test_every cfg \<noteq> 0 \<Longrightarrow>
      int j mod test_every cfg = 0 \<Longrightarrow> fst (collect ext (TestEpoch j) 1 False) = [] \<Longrightarrow>
      epoch cfg ext j s =
        Inl (IndexError,
             s\<lparr>files := (files s)(episode_path cfg j \<mapsto> epoch_episode ext j),
               models := (models s)(model_path cfg (total_env_steps s + epoch_steps ext j) \<mapsto> agent s @ bs),
               agent := agent s @ bs,
               total_env_steps := total_env_steps s + epoch_steps ext j,
               trace := trace s @ DatasetNew (files s) # map Update bs @
                 [Collect (TrainEpoch j) 1 False (epoch_steps ext j),
                  SaveEpisode (episode_path cfg j) (epoch_episode ext j),
                  WandbLog ((total_env_steps s + epoch_steps ext j) * action_repeats cfg)
                    (py_sum (reward (epoch_episode ext j))),
                  SaveModel (model_path cfg (total_env_steps s + epoch_steps ext j)) (agent s @ bs),
                  Collect (TestEpoch j) 1 False (snd (collect ext (TestEpoch j) 1 False))]\<rparr>) \<Longrightarrow> concl"
  and test: "\<And>bs. length bs = nat (training_steps cfg) \<Longrightarrow>
      fst (collect ext (TrainEpoch j) 1 False) \<noteq> [] \<Longrightarrow> test_every cfg \<noteq> 0 \<Longrightarrow>
      int j mod test_every cfg = 0 \<Longrightarrow> fst (collect ext (TestEpoch j) 1 False) \<noteq> [] \<Longrightarrow>
      epoch cfg ext j s =
        Inr (s\<lparr>files := (files s)(episode_path cfg j \<mapsto> epoch_episode ext j),
               models := (models s)(model_path cfg (total_env_steps s + epoch_steps ext j) \<mapsto> agent s @ bs),
               agent := agent s @ bs,
               total_env_steps := total_env_steps s + epoch_steps ext j,
               trace := trace s @ DatasetNew (files s) # map Update bs @
                 [Collect (TrainEpoch j) 1 False (epoch_steps ext j),
                  SaveEpisode (episode_path cfg j) (epoch_episode ext j),
                  WandbLog ((total_env_steps s + epoch_steps ext j) * action_repeats cfg)
                    (py_sum (reward (epoch_episode ext j))),
                  SaveModel (model_path cfg (total_env_steps s + epoch_steps ext j)) (agent s @ bs),
                  Collect (TestEpoch j) 1 False (snd (collect ext (TestEpoch j) 1 False)),
                  WandbLogTest (py_sum (reward (hd (fst (collect ext (TestEpoch j) 1 False)))))
                    (denormalize_images ext (obs (hd (fst (collect ext (TestEpoch j) 1 False)))))]\<rparr>) \<Longrightarrow> concl"
  shows concl
proof -
  show concl
  proof (cases "dataset_len ext (files s) (data_dir cfg) (batch_length cfg) = 0 \<or> batch_size cfg \<le> 0")
    case True
    show concl
      by (rule no_loader [OF True])
         (simp add: epoch_def train_phase_no_loader [OF True] emit_def)
  next
    case False
    define bs where "bs = map (nth_batch (epoch_batches cfg ext (files s)) 0 0) [0..<nat (training_steps cfg)]"
    define s1 where "s1 = s\<lparr>agent := agent s @ bs, trace := trace s @ DatasetNew (files s) # map Update bs\<rparr>"
    have Inr: "train_phase cfg ext s = Inr s1"
      using False train_phase_batches [of ext s cfg] by (simp add: bs_def s1_def)
    have s1: "s1 = s\<lparr>agent := agent s @ bs, trace := trace s @ DatasetNew (files s) # map Update bs\<rparr>"
      by (rule s1_def)
    have len: "length bs = nat (training_steps cfg)"
      by (simp add: bs_def)
    obtain data steps where c: "collect ext (TrainEpoch j) 1 False = (data, steps)"
      by (cases "collect ext (TrainEpoch j) 1 False")
    obtain tdata tsteps where t: "collect ext (TestEpoch j) 1 False = (tdata, tsteps)"
      by (cases "collect ext (TestEpoch j) 1 False")
    show concl
    proof (cases data)
      case Nil
      show concl
        by (rule no_episode [of bs])
           (use len c Nil Inr s1 in \<open>simp_all add: epoch_def collect_phase_def emit_def epoch_steps_def\<close>)
    next
      case (Cons d rest)
      have ep: "epoch_episode ext j = d" "epoch_steps ext j = steps"
        using c Cons by (simp_all add: epoch_episode_def epoch_steps_def)
      have cp: "collect_phase cfg ext j s1 =
        Inr (s\<lparr>files := (files s)(episode_path cfg j \<mapsto> d),
               agent := agent s @ bs,
               total_env_steps := total_env_steps s + steps,
               trace := trace s @ DatasetNew (files s) # map Update bs @
                 [Collect (TrainEpoch j) 1 False steps,
                  SaveEpisode (episode_path cfg j) d,
                  WandbLog ((total_env_steps s + steps) * action_repeats cfg) (py_sum (reward d))]\<rparr>)"
        using c Cons s1 by (simp add: collect_phase_def save_episode_def emit_def)
      consider (a) "test_every cfg = 0"
        | (b) "test_every cfg \<noteq> 0" "int j mod test_every cfg \<noteq> 0"
        | (c) "test_every cfg \<noteq> 0" "int j mod test_every cfg = 0" "tdata = []"
        | (d) "test_every cfg \<noteq> 0" "int j mod test_every cfg = 0" "tdata \<noteq> []"
        by (cases "test_every cfg = 0"; cases "int j mod test_every cfg = 0"; cases "tdata = []") auto
      then show concl
      proof cases
        case a
        show concl
          by (rule zero_div [of bs])
             (use len c Cons a Inr cp ep in \<open>simp_all add: epoch_def test_phase_def\<close>)
      next
        case b
        show concl
          by (rule no_test [of bs])
             (use len c Cons b Inr cp ep in \<open>simp_all add: epoch_def test_phase_def\<close>)
      next
        case c
        show concl
          by (rule test_no_episode [of bs])
             (use len \<open>collect ext (TrainEpoch j) 1 False = (data, steps)\<close> Cons c t Inr cp ep in
               \<open>simp_all add: epoch_def test_phase_def save_model_def emit_def\<close>)
      next
        case d
        then obtain td trest where td: "tdata = td # trest" by (cases tdata) auto
        show concl
          by (rule test [of bs])
             (use len \<open>collect ext (TrainEpoch j) 1 False = (data, steps)\<close> Cons d t td Inr cp ep in
               \<open>simp_all add: epoch_def test_phase_def save_model_def emit_def\<close>)
      qed
    qed
  qed
qed

section \<open>The outer loop and the start-up\<close>

lemma epoch_loop_rule:
  assumes "P i st"
    and "\<And>j s s'. i \<le> j \<Longrightarrow> j < i + k \<Longrightarrow> P j s \<Longrightarrow> epoch cfg ext j s = Inr s' \<Longrightarrow> P (Suc j) s'"
    and "\<And>j s e s'. i \<le> j \<Longrightarrow> j < i + k \<Longrightarrow> P j s \<Longrightarrow> epoch cfg ext j s = Inl (e, s') \<Longrightarrow> Q s'"
  shows "(\<forall>s'. epoch_loop cfg ext i k st = Inr s' \<longrightarrow> P (i + k) s') \<and>
         (\<forall>e s'. epoch_loop cfg ext i k st = Inl (e, s') \<longrightarrow> Q s')"
  using assms
proof (induction k arbitrary: i st)
  case 0
  then show ?case by simp
next
  case (Suc k)
  show ?case
  proof (cases "epoch cfg ext i st")
    case (Inl x)
    obtain e s' where x: "x = (e, s')" by (cases x)
    have "Q s'" using Suc.prems(3) [of i st e s'] Suc.prems(1) Inl x by simp
    then show ?thesis using Inl x by simp
  next
    case (Inr s1)
    have p1: "P (Suc i) s1" using Suc.prems(2) [of i st s1] Suc.prems(1) Inr by simp
    have "(\<forall>s'. epoch_loop cfg ext (Suc i) k s1 = Inr s' \<longrightarrow> P (Suc i + k) s') \<and>
          (\<forall>e s'. epoch_loop cfg ext (Suc i) k s1 = Inl (e, s') \<longrightarrow> Q s')"
    proof (rule Suc.IH [OF p1])
      fix j s s' assume "Suc i \<le> j" "j < Suc i + k" "P j s" "epoch cfg ext j s = Inr s'"
      then show "P (Suc j) s'" using Suc.prems(2) [of j s s'] by simp
    next
      fix j s e s' assume "Suc i \<le> j" "j < Suc i + k" "P j s" "epoch cfg ext j s = Inl (e, s')"
      then show "Q s'" using Suc.prems(3) [of j s e s'] by simp
    qed
    then show ?thesis using Inr by simp
  qed
qed

lemma epoch_loop_invariant:
  assumes "I st" and "\<And>j s. I s \<Longrightarrow> I (state_of (epoch cfg ext j s))"
  shows "I (state_of (epoch_loop cfg ext i k st))"
proof -
  have "(\<forall>s'. epoch_loop cfg ext i k st = Inr s' \<longrightarrow> (\<lambda>j. I) (i + k) s') \<and>
        (\<forall>e s'. epoch_loop cfg ext i k st = Inl (e, s') \<longrightarrow> I s')"
  proof (rule epoch_loop_rule [where P = "\<lambda>j. I" and Q = I])
    show "I st" by (rule assms(1))
  next
    fix j s s' assume "I s" "epoch cfg ext j s = Inr s'"
    then show "I s'" using assms(2) [of s j] by simp
  next
    fix j s e s' assume "I s" "epoch cfg ext j s = Inl (e, s')"
    then show "I s'" using assms(2) [of s j] by simp
  qed
  then show ?thesis
    by (cases "epoch_loop cfg ext i k st") auto
qed

lemma write_all_simps [simp]:
  "write_all m [] = m"
  "write_all m (w # ws) = write_all (m(fst w \<mapsto> snd w)) ws"
  "write_all m (ws @ vs) = write_all (write_all m ws) vs"
  by (simp_all add: write_all_def)

lemma save_prefill_state:
  "save_prefill cfg i ds st =
     st\<lparr>files := write_all (files st) (prefill_writes cfg i ds),
        trace := trace st @ map (\<lambda>w. SaveEpisode (fst w) (snd w)) (prefill_writes cfg i ds)\<rparr>"
proof (induction ds arbitrary: i st)
  case Nil
  show ?case by (simp add: prefill_writes_def)
next
  case (Cons d ds)
  show ?case
    by (simp add: Cons [of "Suc i"] prefill_writes_def save_episode_def emit_def fun_upd_def)
qed

lemma startup_state:
  "startup cfg ext st =
     st\<lparr>files := write_all (files st) (prefill_saves cfg ext),
        total_env_steps := prefill_steps cfg ext,
        trace := trace st @ startup_events cfg ext\<rparr>"
  by (cases "collect ext Prefill (prefill_episodes cfg) True")
     (simp add: startup_def prefill_def save_prefill_state startup_events_def prefill_saves_def
        prefill_steps_def emit_def)

lemma started_state:
  "started cfg ext st =
     st\<lparr>files := write_all (files st) (prefill_saves cfg ext),
        total_env_steps := prefill_steps cfg ext,
        trace := trace st @ MakeDirs (data_dir cfg) # MakeDirs (model_dir cfg) # startup_events cfg ext\<rparr>"
  by (simp add: started_def startup_state emit_def)

lemma driver_cases [case_names data_dir_fails model_dir_fails runs]:
  assumes "makedirs_raises ext (data_dir cfg) \<Longrightarrow>
      driver cfg ext n st = Inl (OSError, st\<lparr>trace := trace st @ [MakeDirs (data_dir cfg)]\<rparr>) \<Longrightarrow> concl"
    and "\<not> makedirs_raises ext (data_dir cfg) \<Longrightarrow> makedirs_raises ext (model_dir cfg) \<Longrightarrow>
      driver cfg ext n st =
        Inl (OSError, st\<lparr>trace := trace st @ [MakeDirs (data_dir cfg), MakeDirs (model_dir cfg)]\<rparr>) \<Longrightarrow> concl"
    and "\<not> makedirs_raises ext (data_dir cfg) \<Longrightarrow> \<not> makedirs_raises ext (model_dir cfg) \<Longrightarrow>
      driver cfg ext n st = epoch_loop cfg ext 0 n (started cfg ext st) \<Longrightarrow> concl"
  shows concl
proof (cases "makedirs_raises ext (data_dir cfg)")
  case True
  then show ?thesis using assms(1) by (simp add: driver_def post_init_def emit_def)
next
  case False
  show ?thesis
  proof (cases "makedirs_raises ext (model_dir cfg)")
    case True
    then show ?thesis using assms(2) False by (simp add: driver_def post_init_def emit_def)
  next
    case m: False
    show ?thesis using assms(3) False m by (simp add: driver_def post_init_def started_def)
  qed
qed

section \<open>The invariant of the counter, the agent and the checkpoints\<close>

lemma trace_ok_all: "(\<And>pre e. e \<in> set es \<Longrightarrow> ok pre e) \<Longrightarrow> trace_ok ok pre es"
  by (induction es arbitrary: pre) auto

lemma event_ok_Update [simp]: "event_ok cfg pre (Update b)"
  by (simp add: event_ok_def)

lemma trace_ok_Updates [simp]: "trace_ok (event_ok cfg) pre (map Update bs)"
  by (rule trace_ok_all) auto

lemma trace_ok_middle: "trace_ok ok [] (pre @ e # post) \<Longrightarrow> ok pre e"
  by (simp add: trace_ok_append)

lemma epoch_consistent:
  assumes "consistent cfg ms s"
  shows "consistent cfg ms (state_of (epoch cfg ext j s))"
proof (cases rule: epoch_cases [where cfg = cfg and ext = ext and j = j and s = s])
  case no_loader
  then show ?thesis using assms
    by (simp add: consistent_def trace_ok_append event_ok_def scan_of_def update_of_def
        checkpoint_of_def train_steps_of_def)
next
  case (no_episode bs)
  then show ?thesis using assms
    by (simp add: consistent_def trace_ok_append event_ok_def scan_of_def update_of_def
        checkpoint_of_def train_steps_of_def)
next
  case (zero_div bs)
  then show ?thesis using assms
    by (simp add: consistent_def trace_ok_append event_ok_def scan_of_def update_of_def
        checkpoint_of_def train_steps_of_def)
next
  case (no_test bs)
  then show ?thesis using assms
    by (simp add: consistent_def trace_ok_append event_ok_def scan_of_def update_of_def
        checkpoint_of_def train_steps_of_def)
next
  case (test_no_episode bs)
  then show ?thesis using assms
    by (simp add: consistent_def trace_ok_append event_ok_def scan_of_def update_of_def
        checkpoint_of_def train_steps_of_def)
next
  case (test bs)
  then show ?thesis using assms
    by (simp add: consistent_def trace_ok_append event_ok_def scan_of_def update_of_def
        checkpoint_of_def train_steps_of_def)
qed

lemma SaveEpisodes_projections [simp]:
  "updates (map (\<lambda>w. SaveEpisode (fst w) (snd w)) ws) = []"
  "checkpoints (map (\<lambda>w. SaveEpisode (fst w) (snd w)) ws) = []"
  "env_steps_sum (map (\<lambda>w. SaveEpisode (fst w) (snd w)) ws) = 0"
  "scans (map (\<lambda>w. SaveEpisode (fst w) (snd w)) ws) = []"
  "evals (map (\<lambda>w. SaveEpisode (fst w) (snd w)) ws) = []"
  "loop_steps (map (\<lambda>w. SaveEpisode (fst w) (snd w)) ws) = []"
  "saved (map (\<lambda>w. SaveEpisode (fst w) (snd w)) ws) = ws"
  by (induction ws)
     (simp_all add: update_of_def checkpoint_of_def train_steps_of_def scan_of_def eval_of_def
        loop_step_of_def save_of_def)

lemma trace_ok_SaveEpisodes [simp]:
  "trace_ok (event_ok cfg) pre (map (\<lambda>w. SaveEpisode (fst w) (snd w)) ws)"
  by (rule trace_ok_all) (auto simp: event_ok_def)

lemma started_consistent: "consistent cfg ms (started cfg ext (init_state fs ms))"
  by (simp add: consistent_def started_state init_state_def startup_events_def trace_ok_append
      event_ok_def update_of_def checkpoint_of_def train_steps_of_def prefill_steps_def)

lemma driver_consistent: "consistent cfg ms (state_of (driver cfg ext n (init_state fs ms)))"
proof (cases rule: driver_cases [where cfg = cfg and ext = ext and n = n and st = "init_state fs ms"])
  case data_dir_fails
  then show ?thesis
    by (simp add: consistent_def init_state_def event_ok_def update_of_def checkpoint_of_def
        train_steps_of_def)
next
  case model_dir_fails
  then show ?thesis
    by (simp add: consistent_def init_state_def event_ok_def update_of_def checkpoint_of_def
        train_steps_of_def)
next
  case runs
  have "consistent cfg ms (state_of (epoch_loop cfg ext 0 n (started cfg ext (init_state fs ms))))"
    by (rule epoch_loop_invariant [where I = "consistent cfg ms"])
       (rule started_consistent, rule epoch_consistent)
  then show ?thesis using runs by simp
qed

lemma driver_rule:
  assumes fail1: "Q (st\<lparr>trace := trace st @ [MakeDirs (data_dir cfg)]\<rparr>)"
    and fail2: "Q (st\<lparr>trace := trace st @ [MakeDirs (data_dir cfg), MakeDirs (model_dir cfg)]\<rparr>)"
    and init: "P 0 (started cfg ext st)"
    and step: "\<And>j s s'. j < n \<Longrightarrow> P j s \<Longrightarrow> epoch cfg ext j s = Inr s' \<Longrightarrow> P (Suc j) s'"
    and fail: "\<And>j s e s'. j < n \<Longrightarrow> P j s \<Longrightarrow> epoch cfg ext j s = Inl (e, s') \<Longrightarrow> Q s'"
    and final: "\<And>s. P n s \<Longrightarrow> Q s"
  shows "Q (state_of (driver cfg ext n st))"
proof (cases rule: driver_cases [where cfg = cfg and ext = ext and n = n and st = st])
  case data_dir_fails
  then show ?thesis using fail1 by simp
next
  case model_dir_fails
  then show ?thesis using fail2 by simp
next
  case runs
  have "(\<forall>s'. epoch_loop cfg ext 0 n (started cfg ext st) = Inr s' \<longrightarrow> P (0 + n) s') \<and>
        (\<forall>e s'. epoch_loop cfg ext 0 n (started cfg ext st) = Inl (e, s') \<longrightarrow> Q s')"
    by (rule epoch_loop_rule [where P = P and Q = Q]) (use init step fail in auto)
  then show ?thesis using runs final
    by (cases "epoch_loop cfg ext 0 n (started cfg ext st)") auto
qed

lemma driver_success_rule:
  assumes ok: "raised (driver cfg ext n st) = None"
    and init: "P 0 (started cfg ext st)"
    and step: "\<And>j s s'. j < n \<Longrightarrow> P j s \<Longrightarrow> epoch cfg ext j s = Inr s' \<Longrightarrow> P (Suc j) s'"
  shows "P n (state_of (driver cfg ext n st))"
proof (cases rule: driver_cases [where cfg = cfg and ext = ext and n = n and st = st])
  case data_dir_fails
  then show ?thesis using ok by simp
next
  case model_dir_fails
  then show ?thesis using ok by simp
next
  case runs
  have "(\<forall>s'. epoch_loop cfg ext 0 n (started cfg ext st) = Inr s' \<longrightarrow> P (0 + n) s') \<and>
        (\<forall>e s'. epoch_loop cfg ext 0 n (started cfg ext st) = Inl (e, s') \<longrightarrow> (\<lambda>s. True) s')"
    by (rule epoch_loop_rule [where P = P and Q = "\<lambda>s. True"]) (use init step in auto)
  then show ?thesis using runs ok
    by (cases "epoch_loop cfg ext 0 n (started cfg ext st)") auto
qed

lemma epoch_success_total:
  assumes "epoch cfg ext j s = Inr s'"
  shows "total_env_steps s' = total_env_steps s + epoch_steps ext j"
  using assms by (cases rule: epoch_cases [where cfg = cfg and ext = ext and j = j and s = s]) auto



section \<open>Evaluation on the concrete collaborators\<close>

lemmas run_defs = driver_def post_init_def startup_def prefill_def epoch_def train_phase_def iter_dl_def
  next_batch_def update_def emit_def collect_phase_def test_phase_def save_episode_def save_model_def
  init_state_def demo_config_def demo_collab_def demo_episode_def default_config_def
  episode_path_def model_path_def prefill_path_def path_join_def py_str_def digits.simps digit_char_def
  py_sum_def Let_def default_base_dir_def empty_store_collab_def readonly_collab_def new_dataloader_def

lemma demo_run_1:
  "driver demo_config demo_collab 1 (init_state Map.empty Map.empty) =
     Inr \<lparr> files = [''d/0.npz'' \<mapsto> demo_episode],
           models = [''m/3.pt'' \<mapsto>
             [\<lparr>b_shuffle = 0, b_pos = 0\<rparr>, \<lparr>b_shuffle = 0, b_pos = 1\<rparr>, \<lparr>b_shuffle = 1, b_pos = 0\<rparr>]],
           agent = [\<lparr>b_shuffle = 0, b_pos = 0\<rparr>, \<lparr>b_shuffle = 0, b_pos = 1\<rparr>, \<lparr>b_shuffle = 1, b_pos = 0\<rparr>],
           total_env_steps = 3,
           trace =
             [MakeDirs ''d'', MakeDirs ''m'', WandbInit ''dreamer-cartpole_swingup'',
              EnvCreate ''cartpole'' ''swingup'' (64, 64) 2, DreamerCreate ''cuda'',
              CollectorCreate True ''cuda'', CollectorCreate False ''cuda'',
              DatasetNew Map.empty,
              Update \<lparr>b_shuffle = 0, b_pos = 0\<rparr>, Update \<lparr>b_shuffle = 0, b_pos = 1\<rparr>,
              Update \<lparr>b_shuffle = 1, b_pos = 0\<rparr>,
              Collect (TrainEpoch 0) 1 False 3,
              SaveEpisode ''d/0.npz'' demo_episode,
              WandbLog 6 1,
              SaveModel ''m/3.pt''
                [\<lparr>b_shuffle = 0, b_pos = 0\<rparr>, \<lparr>b_shuffle = 0, b_pos = 1\<rparr>, \<lparr>b_shuffle = 1, b_pos = 0\<rparr>],
              Collect (TestEpoch 0) 1 False 3, WandbLogTest 1 [7]] \<rparr>"
  by (simp add: run_defs numeral_2_eq_2 numeral_3_eq_3)

lemma demo_run_2_raised: "raised (driver demo_config demo_collab 2 (init_state Map.empty Map.empty)) = None"
  by (simp add: run_defs numeral_2_eq_2 numeral_3_eq_3)

section \<open>Runs that return\<close>

lemma epoch_returns:
  assumes "0 < dataset_len ext (files s) (data_dir cfg) (batch_length cfg) \<and> 0 < batch_size cfg"
    and "fst (collect ext (TrainEpoch j) 1 False) \<noteq> []"
    and "fst (collect ext (TestEpoch j) 1 False) \<noteq> []"
    and "test_every cfg \<noteq> 0"
  shows "\<exists>s'. epoch cfg ext j s = Inr s'"
proof (cases rule: epoch_cases [where cfg = cfg and ext = ext and j = j and s = s])
  case no_loader
  then show ?thesis using assms(1) by simp
qed (use assms in auto)

lemma epoch_loop_returns:
  assumes "\<And>fs. 0 < dataset_len ext fs (data_dir cfg) (batch_length cfg) \<and> 0 < batch_size cfg"
    and "\<And>c. fst (collect ext c 1 False) \<noteq> []"
    and "test_every cfg \<noteq> 0"
  shows "\<exists>s'. epoch_loop cfg ext i k st = Inr s'"
proof (induction k arbitrary: i st)
  case 0
  show ?case by simp
next
  case (Suc k)
  obtain s1 where "epoch cfg ext i st = Inr s1"
    using epoch_returns [of ext st cfg i] assms(1) [of "files st"] assms(2) [of "TrainEpoch i"]
      assms(2) [of "TestEpoch i"] assms(3) by blast
  then show ?case using Suc [of "Suc i" s1] by simp
qed

lemma driver_returns:
  assumes "\<not> makedirs_raises ext (data_dir cfg)" "\<not> makedirs_raises ext (model_dir cfg)"
    and "\<And>fs. 0 < dataset_len ext fs (data_dir cfg) (batch_length cfg) \<and> 0 < batch_size cfg"
    and "\<And>c. fst (collect ext c 1 False) \<noteq> []"
    and "test_every cfg \<noteq> 0"
  shows "raised (driver cfg ext n st) = None"
proof (cases rule: driver_cases [where cfg = cfg and ext = ext and n = n and st = st])
  case runs
  obtain s' where "epoch_loop cfg ext 0 n (started cfg ext st) = Inr s'"
    using epoch_loop_returns [of ext cfg 0 n "started cfg ext st"] assms(3-5) by blast
  then show ?thesis using runs by simp
qed (use assms in auto)

lemma main_demo_returns: "raised (main demo_collab (init_state fs ms)) = None"
  unfolding main_def
  by (rule driver_returns) (simp_all add: demo_collab_def default_config_def)

section \<open>Directory creation\<close>

lemma filter_MakeDirs_Updates [simp]: "filter is_MakeDirs (map Update bs) = []"
  by (induction bs) simp_all

lemma filter_MakeDirs_SaveEpisodes [simp]:
  "filter is_MakeDirs (map (\<lambda>w. SaveEpisode (fst w) (snd w)) ws) = []"
  by (induction ws) simp_all

lemma epoch_dirs_first:
  assumes "dirs_first cfg s"
  shows "dirs_first cfg (state_of (epoch cfg ext j s))"
  by (cases rule: epoch_cases [where cfg = cfg and ext = ext and j = j and s = s])
     (use assms in \<open>simp_all add: dirs_first_def\<close>)

lemma started_dirs_first: "dirs_first cfg (started cfg ext (init_state fs ms))"
  by (simp add: dirs_first_def started_state init_state_def startup_events_def)

lemma dirs_first_filter:
  assumes "dirs_first cfg s"
  shows "filter is_MakeDirs (trace s) = take 2 (trace s)"
proof -
  have "filter is_MakeDirs (take 2 (trace s) @ drop 2 (trace s)) = take 2 (trace s)"
    using assms by (simp add: dirs_first_def)
  then show ?thesis by simp
qed

section \<open>The steps of the loop, checkpoints and evaluations\<close>

lemma length_concat_epoch_loop_steps:
  "length (concat (map (epoch_loop_steps cfg) [0..<j])) = j * (nat (training_steps cfg) + 2)"
  by (induction j) (simp_all add: epoch_loop_steps_def)

lemma epoch_loop_steps_success:
  assumes "epoch cfg ext j s = Inr s'"
  shows "loop_steps (trace s') = loop_steps (trace s) @ epoch_loop_steps cfg j"
  using assms
  by (cases rule: epoch_cases [where cfg = cfg and ext = ext and j = j and s = s])
     (auto simp: loop_step_of_def epoch_loop_steps_def)

lemma epoch_loop_steps_bound:
  "length (loop_steps (trace (state_of (epoch cfg ext j s)))) \<le>
     length (loop_steps (trace s)) + (nat (training_steps cfg) + 2)"
  by (cases rule: epoch_cases [where cfg = cfg and ext = ext and j = j and s = s])
     (simp_all add: loop_step_of_def)

lemma epoch_evals_success:
  assumes "epoch cfg ext j s = Inr s'"
  shows "evals (trace s') = evals (trace s) @ epoch_evals cfg j"
  using assms
  by (cases rule: epoch_cases [where cfg = cfg and ext = ext and j = j and s = s])
     (auto simp: eval_of_def epoch_evals_def)

lemma started_loop_steps: "loop_steps (trace (started cfg ext (init_state fs ms))) = []"
  by (simp add: started_state init_state_def startup_events_def loop_step_of_def)

lemma started_evals: "evals (trace (started cfg ext (init_state fs ms))) = []"
  by (simp add: started_state init_state_def startup_events_def eval_of_def)

section \<open>The data directory\<close>

lemma epoch_scans:
  "scans (trace (state_of (epoch cfg ext j s))) = scans (trace s) @ [files s]"
  by (cases rule: epoch_cases [where cfg = cfg and ext = ext and j = j and s = s])
     (simp_all add: scan_of_def)

lemma epoch_success_files:
  assumes "epoch cfg ext j s = Inr s'"
  shows "files s' = (files s)(episode_path cfg j \<mapsto> epoch_episode ext j)"
  using assms
  by (cases rule: epoch_cases [where cfg = cfg and ext = ext and j = j and s = s]) auto

lemma fresh_scans_snoc:
  assumes "fresh_scans cfg ext sc"
    and "0 < length sc \<longrightarrow>
      f (episode_path cfg (length sc - 1)) = Some (epoch_episode ext (length sc - 1))"
  shows "fresh_scans cfg ext (sc @ [f])"
  unfolding fresh_scans_def
proof (intro allI impI)
  fix k assume k: "Suc k < length (sc @ [f])"
  show "((sc @ [f]) ! Suc k) (episode_path cfg k) = Some (epoch_episode ext k)"
  proof (cases "Suc k < length sc")
    case True
    then show ?thesis using assms(1) by (simp add: fresh_scans_def nth_append)
  next
    case False
    then have l: "length sc = Suc k" using k by simp
    have "(sc @ [f]) ! length sc = f" by simp
    then have "(sc @ [f]) ! Suc k = f" by (simp only: l)
    moreover have "f (episode_path cfg k) = Some (epoch_episode ext k)"
      using assms(2) by (simp add: l)
    ultimately show ?thesis by simp
  qed
qed

lemma started_scans: "scans (trace (started cfg ext (init_state fs ms))) = []"
  by (simp add: started_state init_state_def startup_events_def scan_of_def)

lemma started_saved: "saved (trace (started cfg ext (init_state fs ms))) = prefill_saves cfg ext"
proof (cases "0 < prefill_episodes cfg")
  case True
  then show ?thesis
    by (simp add: started_state init_state_def startup_events_def save_of_def)
next
  case False
  then show ?thesis
    by (simp add: started_state init_state_def startup_events_def save_of_def prefill_saves_def)
qed

lemma started_files: "files (started cfg ext (init_state fs ms)) = write_all fs (prefill_saves cfg ext)"
  by (simp add: started_state init_state_def)

lemma map_fst_prefill_writes:
  "map fst (prefill_writes cfg i ds) = map (prefill_path cfg) [i..<i + length ds]"
proof -
  have "map fst (prefill_writes cfg i ds) = map (\<lambda>x. prefill_path cfg (fst x)) (enumerate i ds)"
    by (simp add: prefill_writes_def case_prod_unfold comp_def)
  also have "\<dots> = map (prefill_path cfg) (map fst (enumerate i ds))"
    by (simp only: map_map comp_def)
  also have "\<dots> = map (prefill_path cfg) [i..<i + length ds]"
    by (simp only: map_fst_enumerate)
  finally show ?thesis .
qed

lemma distinct_prefill_paths: "distinct (map (prefill_path cfg) [i..<j])"
  by (simp add: distinct_map inj_on_def prefill_path_inj)

lemma distinct_episode_paths: "distinct (map (episode_path cfg) [i..<j])"
  by (simp add: distinct_map inj_on_def episode_path_inj)

lemma map_fst_schedule:
  "\<exists>m. map fst (schedule cfg ext n) = map (prefill_path cfg) [0..<m] @ map (episode_path cfg) [0..<n]"
proof (cases "prefill_episodes cfg > 0")
  case True
  have "map fst (schedule cfg ext n) =
      map (prefill_path cfg) [0..<0 + length (fst (collect ext Prefill (prefill_episodes cfg) True))] @
      map (episode_path cfg) [0..<n]"
    using True
    by (simp add: schedule_def prefill_saves_def map_fst_prefill_writes epoch_save_def comp_def)
  then show ?thesis by auto
next
  case False
  have "map fst (schedule cfg ext n) = map (prefill_path cfg) [0..<0] @ map (episode_path cfg) [0..<n]"
    using False by (simp add: schedule_def prefill_saves_def epoch_save_def comp_def)
  then show ?thesis by blast
qed

lemma distinct_schedule: "distinct (map fst (schedule cfg ext n))"
proof -
  obtain m where "map fst (schedule cfg ext n) =
      map (prefill_path cfg) [0..<m] @ map (episode_path cfg) [0..<n]"
    using map_fst_schedule by blast
  moreover have "set (map (prefill_path cfg) [0..<m]) \<inter> set (map (episode_path cfg) [0..<n]) = {}"
    using prefill_path_neq_episode_path by auto
  ultimately show ?thesis
    using distinct_prefill_paths [of cfg 0 m] distinct_episode_paths [of cfg 0 n]
    by (simp only: distinct_append)
qed

lemma schedule_Suc: "schedule cfg ext (Suc j) = schedule cfg ext j @ [epoch_save cfg ext j]"
  by (simp add: schedule_def)

lemma schedule_split:
  assumes "j \<le> n"
  shows "\<exists>rest. schedule cfg ext n = schedule cfg ext j @ rest"
proof -
  obtain d where n: "n = j + d" using assms le_Suc_ex by blast
  have u: "[0..<j + d] = [0..<j] @ [j..<j + d]"
    by (rule upt_add_eq_append) simp
  have "schedule cfg ext (j + d) = schedule cfg ext j @ map (epoch_save cfg ext) [j..<j + d]"
    by (simp only: schedule_def u map_append append_assoc)
  then show ?thesis unfolding n by blast
qed

lemma episode_path_not_scheduled:
  "episode_path cfg j \<notin> fst ` set (schedule cfg ext j)"
proof -
  have "distinct (map fst (schedule cfg ext j) @ [episode_path cfg j])"
    using distinct_schedule [of cfg ext "Suc j"] by (simp add: schedule_Suc epoch_save_def)
  then show ?thesis by simp
qed

lemma write_all_snoc: "write_all m (ws @ [w]) = (write_all m ws)(fst w \<mapsto> snd w)"
  by simp

lemma write_all_lookup:
  assumes "distinct (map fst ws)" "w \<in> set ws"
  shows "write_all m ws (fst w) = Some (snd w)"
  using assms
proof (induction ws arbitrary: w rule: rev_induct)
  case Nil
  then show ?case by simp
next
  case (snoc x xs)
  show ?case
  proof (cases "w = x")
    case True
    then show ?thesis by (simp only: write_all_snoc) simp
  next
    case False
    then have w: "w \<in> set xs" using snoc.prems(2) by simp
    have "fst x \<notin> fst ` set xs" using snoc.prems(1) by simp
    then have "fst w \<noteq> fst x" using w by (metis imageI)
    moreover have "write_all m xs (fst w) = Some (snd w)"
      using snoc.IH [of w] snoc.prems(1) w by simp
    ultimately show ?thesis by (simp only: write_all_snoc) simp
  qed
qed

lemma started_agree: "agree (started cfg ext (init_state fs ms))"
proof -
  have "distinct (map fst (prefill_saves cfg ext))"
    using distinct_schedule [of cfg ext 0] by (simp add: schedule_def)
  then show ?thesis
    by (simp add: agree_def started_saved started_files write_all_lookup)
qed

lemma epoch_saved:
  "(saved (trace (state_of (epoch cfg ext j s))) = saved (trace s) \<and>
    files (state_of (epoch cfg ext j s)) = files s \<and>
    raised (epoch cfg ext j s) \<noteq> None) \<or>
   (saved (trace (state_of (epoch cfg ext j s))) = saved (trace s) @ [epoch_save cfg ext j] \<and>
    files (state_of (epoch cfg ext j s)) = (files s)(episode_path cfg j \<mapsto> epoch_episode ext j))"
  by (cases rule: epoch_cases [where cfg = cfg and ext = ext and j = j and s = s])
     (simp_all add: save_of_def epoch_save_def)

lemma agree_after_save:
  assumes "saved (trace s) = schedule cfg ext j" "agree s"
    and "saved (trace s') = saved (trace s) @ [epoch_save cfg ext j]"
    and "files s' = (files s)(episode_path cfg j \<mapsto> epoch_episode ext j)"
  shows "saved (trace s') = schedule cfg ext (Suc j) \<and> agree s'"
proof
  show "saved (trace s') = schedule cfg ext (Suc j)"
    using assms(1,3) by (simp add: schedule_Suc)
next
  have old: "fst w \<noteq> episode_path cfg j" if "w \<in> set (saved (trace s))" for w
  proof -
    have "fst w \<in> fst ` set (schedule cfg ext j)"
      using that by (simp only: assms(1)) (rule imageI)
    then show ?thesis using episode_path_not_scheduled [of cfg j ext] by metis
  qed
  show "agree s'"
    unfolding agree_def
  proof
    fix w assume "w \<in> set (saved (trace s'))"
    then consider "w \<in> set (saved (trace s))" | "w = epoch_save cfg ext j"
      by (auto simp: assms(3))
    then show "files s' (fst w) = Some (snd w)"
    proof cases
      case 1
      then show ?thesis using old [OF 1] assms(2) by (simp add: agree_def assms(4))
    next
      case 2
      then show ?thesis by (simp add: assms(4) epoch_save_def)
    qed
  qed
qed

lemma demo_run_2_scans:
  "scans (trace (state_of (driver demo_config demo_collab 2 (init_state Map.empty Map.empty)))) =
     [Map.empty, [''d/0.npz'' \<mapsto> demo_episode]]"
  by (simp add: run_defs numeral_2_eq_2 numeral_3_eq_3 scan_of_def)

lemma map_fst_prefill_saves:
  "map fst (prefill_saves cfg ext) = map (prefill_path cfg) [0..<length (prefill_saves cfg ext)]"
proof (cases "0 < prefill_episodes cfg")
  case True
  have "length (prefill_writes cfg 0 ds) = length ds" for ds :: "('a, 'b, 'c) episode list"
    by (simp add: prefill_writes_def)
  then show ?thesis
    using True map_fst_prefill_writes [of cfg 0 "fst (collect ext Prefill (prefill_episodes cfg) True)"]
    by (simp add: prefill_saves_def)
next
  case False
  then show ?thesis by (simp add: prefill_saves_def)
qed

lemma epoch_step_schedule:
  assumes p: "saved (trace s) = schedule cfg ext j \<and> agree s"
    and e: "epoch cfg ext j s = Inr s'"
  shows "saved (trace s') = schedule cfg ext (Suc j) \<and> agree s'"
proof -
  have "saved (trace s') = saved (trace s) @ [epoch_save cfg ext j]"
    and "files s' = (files s)(episode_path cfg j \<mapsto> epoch_episode ext j)"
    using epoch_saved [of cfg ext j s] e by simp_all
  then show ?thesis using agree_after_save [of s cfg ext j s'] p by blast
qed

lemma epoch_fail_schedule:
  assumes j: "j < n"
    and p: "saved (trace s) = schedule cfg ext j \<and> agree s"
    and e: "epoch cfg ext j s = Inl (x, s')"
  shows "(\<exists>rest. schedule cfg ext n = saved (trace s') @ rest) \<and> agree s'"
proof -
  consider
    (same) "saved (trace s') = saved (trace s)" "files s' = files s"
    | (more) "saved (trace s') = saved (trace s) @ [epoch_save cfg ext j]"
        "files s' = (files s)(episode_path cfg j \<mapsto> epoch_episode ext j)"
    using epoch_saved [of cfg ext j s] e by auto
  then show ?thesis
  proof cases
    case same
    have "\<exists>rest. schedule cfg ext n = schedule cfg ext j @ rest"
      by (rule schedule_split) (use j in simp)
    then show ?thesis using p same by (simp add: agree_def)
  next
    case more
    have "saved (trace s') = schedule cfg ext (Suc j) \<and> agree s'"
      using agree_after_save [of s cfg ext j s'] p more by blast
    moreover have "\<exists>rest. schedule cfg ext n = schedule cfg ext (Suc j) @ rest"
      by (rule schedule_split) (use j in simp)
    ultimately show ?thesis by simp
  qed
qed

section \<open>The inner loop never fails\<close>





section \<open>Dataset constructions and episode writes\<close>

lemma store_steps_append [simp]: "store_steps (a @ b) = store_steps a @ store_steps b"
  by (simp add: store_steps_def)

lemma store_steps_Nil [simp]: "store_steps [] = []"
  by (simp add: store_steps_def)

lemma store_steps_Cons [simp]: "store_steps (e # tr) = store_step_of e @ store_steps tr"
  by (simp add: store_steps_def)

lemma store_steps_Updates [simp]: "store_steps (map Update bs) = []"
  by (induction bs) (simp_all add: store_step_of_def)

lemma store_steps_SaveEpisodes [simp]:
  "store_steps (map (\<lambda>w. SaveEpisode (fst w) (snd w)) ws) = map (\<lambda>w. Wrote (fst w) (snd w)) ws"
  by (induction ws) (simp_all add: store_step_of_def)

lemma started_store_steps:
  "store_steps (trace (started cfg ext (init_state fs ms))) = store_schedule cfg ext fs 0"
proof (cases "0 < prefill_episodes cfg")
  case True
  then show ?thesis
    by (simp add: started_state init_state_def startup_events_def store_step_of_def store_schedule_def)
next
  case False
  then show ?thesis
    by (simp add: started_state init_state_def startup_events_def store_step_of_def store_schedule_def
        prefill_saves_def)
qed

lemma store_schedule_Suc:
  "store_schedule cfg ext fs (Suc j) = store_schedule cfg ext fs j @ epoch_store_steps cfg ext fs j"
  by (simp add: store_schedule_def)

lemma store_schedule_split:
  assumes "j \<le> n"
  shows "\<exists>rest. store_schedule cfg ext fs n = store_schedule cfg ext fs j @ rest"
proof -
  obtain d where n: "n = j + d" using assms le_Suc_ex by blast
  have u: "[0..<j + d] = [0..<j] @ [j..<j + d]"
    by (rule upt_add_eq_append) simp
  have "store_schedule cfg ext fs (j + d) =
      store_schedule cfg ext fs j @ concat (map (epoch_store_steps cfg ext fs) [j..<j + d])"
    by (simp only: store_schedule_def u map_append concat_append append_assoc)
  then show ?thesis unfolding n by blast
qed

lemma epoch_store_steps_cases:
  "(store_steps (trace (state_of (epoch cfg ext j s))) = store_steps (trace s) @ [Scanned (files s)] \<and>
    raised (epoch cfg ext j s) \<noteq> None) \<or>
   (store_steps (trace (state_of (epoch cfg ext j s))) =
      store_steps (trace s) @ [Scanned (files s), Wrote (episode_path cfg j) (epoch_episode ext j)] \<and>
    files (state_of (epoch cfg ext j s)) = (files s)(episode_path cfg j \<mapsto> epoch_episode ext j))"
  by (cases rule: epoch_cases [where cfg = cfg and ext = ext and j = j and s = s])
     (simp_all add: store_step_of_def)

lemma epoch_step_store:
  assumes p: "store_steps (trace s) = store_schedule cfg ext fs j \<and> files s = write_all fs (schedule cfg ext j)"
    and e: "epoch cfg ext j s = Inr s'"
  shows "store_steps (trace s') = store_schedule cfg ext fs (Suc j) \<and>
         files s' = write_all fs (schedule cfg ext (Suc j))"
proof -
  have "store_steps (trace s') =
      store_steps (trace s) @ [Scanned (files s), Wrote (episode_path cfg j) (epoch_episode ext j)]"
    and "files s' = (files s)(episode_path cfg j \<mapsto> epoch_episode ext j)"
    using epoch_store_steps_cases [of cfg ext j s] e by simp_all
  then show ?thesis
    using p by (simp add: store_schedule_Suc epoch_store_steps_def schedule_Suc epoch_save_def)
qed

lemma epoch_fail_store:
  assumes j: "j < n"
    and p: "store_steps (trace s) = store_schedule cfg ext fs j \<and> files s = write_all fs (schedule cfg ext j)"
    and e: "epoch cfg ext j s = Inl (x, s')"
  shows "\<exists>rest. store_schedule cfg ext fs n = store_steps (trace s') @ rest"
proof -
  obtain rest where rest: "store_schedule cfg ext fs n = store_schedule cfg ext fs (Suc j) @ rest"
    using store_schedule_split [of "Suc j" n cfg ext fs] j by auto
  then have full: "store_schedule cfg ext fs n =
      store_steps (trace s) @ [Scanned (files s), Wrote (episode_path cfg j) (epoch_episode ext j)] @ rest"
    using p by (simp add: store_schedule_Suc epoch_store_steps_def)
  consider
    (scan) "store_steps (trace s') = store_steps (trace s) @ [Scanned (files s)]"
    | (both) "store_steps (trace s') =
        store_steps (trace s) @ [Scanned (files s), Wrote (episode_path cfg j) (epoch_episode ext j)]"
    using epoch_store_steps_cases [of cfg ext j s] e by auto
  then show ?thesis
  proof cases
    case scan
    have "store_schedule cfg ext fs n =
        store_steps (trace s') @ (Wrote (episode_path cfg j) (epoch_episode ext j) # rest)"
      by (simp only: full scan) simp
    then show ?thesis by blast
  next
    case both
    have "store_schedule cfg ext fs n = store_steps (trace s') @ rest"
      by (simp only: full both) simp
    then show ?thesis by blast
  qed
qed

lemma schedule_holds_previous_episode:
  "write_all fs (schedule cfg ext (Suc k)) (episode_path cfg k) = Some (epoch_episode ext k)"
  by (simp add: schedule_Suc epoch_save_def)

lemma scans_hold_previous_episode:
  "length (scans (trace (state_of (driver cfg ext n (init_state fs ms))))) \<le> n \<and>
   (\<forall>k. Suc k < length (scans (trace (state_of (driver cfg ext n (init_state fs ms))))) \<longrightarrow>
      (scans (trace (state_of (driver cfg ext n (init_state fs ms)))) ! Suc k)
         (path_join (data_dir cfg) (py_str (int k) @ ''.npz'')) =
       Some (hd (fst (collect ext (TrainEpoch k) 1 False))))"
proof -
  have "length (scans (trace (state_of (driver cfg ext n (init_state fs ms))))) \<le> n \<and>
      fresh_scans cfg ext (scans (trace (state_of (driver cfg ext n (init_state fs ms)))))"
  proof (rule driver_rule
      [where P = "\<lambda>j s. length (scans (trace s)) = j \<and> fresh_scans cfg ext (scans (trace s)) \<and>
                    (0 < j \<longrightarrow> files s (episode_path cfg (j - 1)) = Some (epoch_episode ext (j - 1)))"
         and Q = "\<lambda>s. length (scans (trace s)) \<le> n \<and> fresh_scans cfg ext (scans (trace s))"])
    show "length (scans (trace ((init_state fs ms)\<lparr>trace := trace (init_state fs ms) @ [MakeDirs (data_dir cfg)]\<rparr>))) \<le> n \<and>
        fresh_scans cfg ext (scans (trace ((init_state fs ms)\<lparr>trace := trace (init_state fs ms) @ [MakeDirs (data_dir cfg)]\<rparr>)))"
      by (simp add: init_state_def scan_of_def fresh_scans_def)
    show "length (scans (trace ((init_state fs ms)\<lparr>trace := trace (init_state fs ms) @
          [MakeDirs (data_dir cfg), MakeDirs (model_dir cfg)]\<rparr>))) \<le> n \<and>
        fresh_scans cfg ext (scans (trace ((init_state fs ms)\<lparr>trace := trace (init_state fs ms) @
          [MakeDirs (data_dir cfg), MakeDirs (model_dir cfg)]\<rparr>)))"
      by (simp add: init_state_def scan_of_def fresh_scans_def)
    show "length (scans (trace (started cfg ext (init_state fs ms)))) = 0 \<and>
        fresh_scans cfg ext (scans (trace (started cfg ext (init_state fs ms)))) \<and>
        (0 < (0::nat) \<longrightarrow> files (started cfg ext (init_state fs ms)) (episode_path cfg (0 - 1)) =
           Some (epoch_episode ext (0 - 1)))"
      by (simp add: started_scans fresh_scans_def)
  next
    fix j s s'
    assume p: "length (scans (trace s)) = j \<and> fresh_scans cfg ext (scans (trace s)) \<and>
        (0 < j \<longrightarrow> files s (episode_path cfg (j - 1)) = Some (epoch_episode ext (j - 1)))"
      and e: "epoch cfg ext j s = Inr s'"
    have sc: "scans (trace s') = scans (trace s) @ [files s]"
      using epoch_scans [of cfg ext j s] e by simp
    have "fresh_scans cfg ext (scans (trace s) @ [files s])"
      by (rule fresh_scans_snoc) (use p in auto)
    then show "length (scans (trace s')) = Suc j \<and> fresh_scans cfg ext (scans (trace s')) \<and>
        (0 < Suc j \<longrightarrow> files s' (episode_path cfg (Suc j - 1)) = Some (epoch_episode ext (Suc j - 1)))"
      using p sc epoch_success_files [OF e] by simp
  next
    fix j s e s'
    assume j: "j < n"
      and p: "length (scans (trace s)) = j \<and> fresh_scans cfg ext (scans (trace s)) \<and>
        (0 < j \<longrightarrow> files s (episode_path cfg (j - 1)) = Some (epoch_episode ext (j - 1)))"
      and e: "epoch cfg ext j s = Inl (e, s')"
    have sc: "scans (trace s') = scans (trace s) @ [files s]"
      using epoch_scans [of cfg ext j s] e by simp
    have "fresh_scans cfg ext (scans (trace s) @ [files s])"
      by (rule fresh_scans_snoc) (use p in auto)
    then show "length (scans (trace s')) \<le> n \<and> fresh_scans cfg ext (scans (trace s'))"
      using p sc j by simp
  next
    fix s :: "('a, 'b, 'c) state"
    assume "length (scans (trace s)) = n \<and> fresh_scans cfg ext (scans (trace s)) \<and>
        (0 < n \<longrightarrow> files s (episode_path cfg (n - 1)) = Some (epoch_episode ext (n - 1)))"
    then show "length (scans (trace s)) \<le> n \<and> fresh_scans cfg ext (scans (trace s))"
      by simp
  qed
  then show ?thesis
    by (simp add: fresh_scans_def episode_path_def epoch_episode_def)
qed

section \<open>Claims\<close>






text \<open>
  Claim C3. The dataset constructions and the episode writes of a run alternate: after the
  prefill writes, each epoch \<open>i\<close> first builds its own dataset, on the initial files with
  everything written before it (the prefill files and the files \<open>0, ..., i - 1\<close>), and then
  writes \<^verbatim>\<open>i.npz\<close>. Every run, returning or raising, makes an initial part of these steps
  in this order, and a run that returns makes all of them for its \<open>n\<close> epochs. So the file
  set on which the dataset of epoch \<open>k + 1\<close> is built maps \<^verbatim>\<open>k.npz\<close> to the episode
  collected in epoch \<open>k\<close> (\<^verbatim>\<open>data[0]\<close> of that epoch's collection).
\<close>

theorem every_epoch_builds_dataset_on_fresh_files:
  "(\<exists>rest. store_schedule cfg ext fs n =
      store_steps (trace (state_of (driver cfg ext n (init_state fs ms)))) @ rest) \<and>
   (raised (driver cfg ext n (init_state fs ms)) = None \<longrightarrow>
      store_steps (trace (state_of (driver cfg ext n (init_state fs ms)))) = store_schedule cfg ext fs n) \<and>
   store_schedule cfg ext fs n =
     map (\<lambda>w. Wrote (fst w) (snd w)) (prefill_saves cfg ext) @
     concat (map (\<lambda>i.
       [Scanned (write_all fs
          (prefill_saves cfg ext @ map (\<lambda>j. (episode_path cfg j, epoch_episode ext j)) [0..<i])),
        Wrote (episode_path cfg i) (epoch_episode ext i)]) [0..<n]) \<and>
   (\<forall>k. write_all fs
          (prefill_saves cfg ext @ map (\<lambda>j. (episode_path cfg j, epoch_episode ext j)) [0..<Suc k])
          (episode_path cfg k) = Some (epoch_episode ext k)) \<and>
   length (scans (trace (state_of (driver cfg ext n (init_state fs ms))))) \<le> n \<and>
   (\<forall>k. Suc k < length (scans (trace (state_of (driver cfg ext n (init_state fs ms))))) \<longrightarrow>
      (scans (trace (state_of (driver cfg ext n (init_state fs ms)))) ! Suc k)
         (path_join (data_dir cfg) (py_str (int k) @ ''.npz'')) =
       Some (hd (fst (collect ext (TrainEpoch k) 1 False))))"
proof -
  let ?S = "state_of (driver cfg ext n (init_state fs ms))"
  have sch: "schedule cfg ext i =
      prefill_saves cfg ext @ map (\<lambda>j. (episode_path cfg j, epoch_episode ext j)) [0..<i]" for i
    by (simp add: schedule_def epoch_save_def [abs_def])
  have q: "\<exists>rest. store_schedule cfg ext fs n = store_steps (trace ?S) @ rest"
  proof (rule driver_rule
      [where P = "\<lambda>j s. store_steps (trace s) = store_schedule cfg ext fs j \<and>
                    files s = write_all fs (schedule cfg ext j)"
         and Q = "\<lambda>s. \<exists>rest. store_schedule cfg ext fs n = store_steps (trace s) @ rest"])
    show "\<exists>rest. store_schedule cfg ext fs n =
        store_steps (trace ((init_state fs ms)\<lparr>trace := trace (init_state fs ms) @ [MakeDirs (data_dir cfg)]\<rparr>)) @ rest"
      by (simp add: init_state_def store_step_of_def)
    show "\<exists>rest. store_schedule cfg ext fs n =
        store_steps (trace ((init_state fs ms)\<lparr>trace := trace (init_state fs ms) @
          [MakeDirs (data_dir cfg), MakeDirs (model_dir cfg)]\<rparr>)) @ rest"
      by (simp add: init_state_def store_step_of_def)
    show "store_steps (trace (started cfg ext (init_state fs ms))) = store_schedule cfg ext fs 0 \<and>
        files (started cfg ext (init_state fs ms)) = write_all fs (schedule cfg ext 0)"
      by (simp add: started_store_steps started_files schedule_def)
  next
    fix j s s'
    assume "store_steps (trace s) = store_schedule cfg ext fs j \<and> files s = write_all fs (schedule cfg ext j)"
      and "epoch cfg ext j s = Inr s'"
    then show "store_steps (trace s') = store_schedule cfg ext fs (Suc j) \<and>
        files s' = write_all fs (schedule cfg ext (Suc j))"
      by (rule epoch_step_store)
  next
    fix j s e s'
    assume "j < n"
      and "store_steps (trace s) = store_schedule cfg ext fs j \<and> files s = write_all fs (schedule cfg ext j)"
      and "epoch cfg ext j s = Inl (e, s')"
    then show "\<exists>rest. store_schedule cfg ext fs n = store_steps (trace s') @ rest"
      by (rule epoch_fail_store)
  next
    fix s :: "('a, 'b, 'c) state"
    assume "store_steps (trace s) = store_schedule cfg ext fs n \<and> files s = write_all fs (schedule cfg ext n)"
    then show "\<exists>rest. store_schedule cfg ext fs n = store_steps (trace s) @ rest"
      by simp
  qed
  have r: "store_steps (trace ?S) = store_schedule cfg ext fs n"
    if ok: "raised (driver cfg ext n (init_state fs ms)) = None"
  proof -
    have "store_steps (trace ?S) = store_schedule cfg ext fs n \<and>
        files ?S = write_all fs (schedule cfg ext n)"
    proof (rule driver_success_rule
        [where P = "\<lambda>j s. store_steps (trace s) = store_schedule cfg ext fs j \<and>
                      files s = write_all fs (schedule cfg ext j)", OF ok])
      show "store_steps (trace (started cfg ext (init_state fs ms))) = store_schedule cfg ext fs 0 \<and>
          files (started cfg ext (init_state fs ms)) = write_all fs (schedule cfg ext 0)"
        by (simp add: started_store_steps started_files schedule_def)
    next
      fix j s s'
      assume "store_steps (trace s) = store_schedule cfg ext fs j \<and> files s = write_all fs (schedule cfg ext j)"
        and "epoch cfg ext j s = Inr s'"
      then show "store_steps (trace s') = store_schedule cfg ext fs (Suc j) \<and>
          files s' = write_all fs (schedule cfg ext (Suc j))"
        by (rule epoch_step_store)
    qed
    then show ?thesis by simp
  qed
  have u: "store_schedule cfg ext fs n =
     map (\<lambda>w. Wrote (fst w) (snd w)) (prefill_saves cfg ext) @
     concat (map (\<lambda>i.
       [Scanned (write_all fs
          (prefill_saves cfg ext @ map (\<lambda>j. (episode_path cfg j, epoch_episode ext j)) [0..<i])),
        Wrote (episode_path cfg i) (epoch_episode ext i)]) [0..<n])"
    by (simp add: store_schedule_def epoch_store_steps_def [abs_def] sch)
  have h: "write_all fs
          (prefill_saves cfg ext @ map (\<lambda>j. (episode_path cfg j, epoch_episode ext j)) [0..<Suc k])
          (episode_path cfg k) = Some (epoch_episode ext k)" for k
    using schedule_holds_previous_episode [of fs cfg ext k] by (simp only: sch)
  note old = scans_hold_previous_episode [of cfg ext n fs ms]
  show ?thesis
    using q r u h old by blast
qed

text \<open>
  The theorem on two epochs of the small configuration, which return: the dataset of epoch
  0 is built on the empty directory, that of epoch 1 on a directory that holds \<^verbatim>\<open>0.npz\<close>.
\<close>

theorem every_epoch_builds_dataset_on_fresh_files_witness:
  "raised (driver demo_config demo_collab 2 (init_state Map.empty Map.empty)) = None \<and>
   store_steps (trace (state_of (driver demo_config demo_collab 2 (init_state Map.empty Map.empty)))) =
     [Scanned Map.empty, Wrote ''d/0.npz'' demo_episode,
      Scanned [''d/0.npz'' \<mapsto> demo_episode], Wrote ''d/1.npz'' demo_episode]"
proof -
  have e: "store_schedule demo_config demo_collab Map.empty 2 =
     [Scanned Map.empty, Wrote ''d/0.npz'' demo_episode,
      Scanned [''d/0.npz'' \<mapsto> demo_episode], Wrote ''d/1.npz'' demo_episode]"
    by (simp add: store_schedule_def epoch_store_steps_def schedule_def prefill_saves_def
        epoch_save_def episode_path_def epoch_episode_def demo_config_def default_config_def
        demo_collab_def path_join_def py_str_def digits.simps digit_char_def numeral_2_eq_2)
  have "store_steps (trace (state_of (driver demo_config demo_collab 2 (init_state Map.empty Map.empty)))) =
      store_schedule demo_config demo_collab Map.empty 2"
    using demo_run_2_raised
      every_epoch_builds_dataset_on_fresh_files [of demo_config demo_collab Map.empty 2 Map.empty]
    by blast
  then show ?thesis
    using demo_run_2_raised by (simp only: e)
qed

text \<open>
  Claim C4. Take any checkpoint save of any run, with the events \<open>pre\<close> before it. The file is
  \<^verbatim>\<open>os.path.join(config.model_dir, f"{t}.pt")\<close> where \<open>t\<close> is the sum of the step counts the
  training collector has returned so far, which is the value of \<^verbatim>\<open>total_env_steps\<close> at
  that moment (claim C8); the blob is the agent's parameters at that moment; and the model
  directory at the end of the run is its initial content with one write per save event.
\<close>

theorem checkpoint_named_by_env_step_total:
  assumes "trace (state_of (driver cfg ext n (init_state fs ms))) = pre @ SaveModel p b # post"
  shows "p = path_join (model_dir cfg) (py_str (env_steps_sum pre) @ ''.pt'') \<and>
         b = updates pre \<and>
         models (state_of (driver cfg ext n (init_state fs ms))) =
           write_all ms (checkpoints (trace (state_of (driver cfg ext n (init_state fs ms)))))"
proof -
  have c: "consistent cfg ms (state_of (driver cfg ext n (init_state fs ms)))"
    by (rule driver_consistent)
  then have "trace_ok (event_ok cfg) [] (pre @ SaveModel p b # post)"
    using assms by (simp add: consistent_def)
  then have "event_ok cfg pre (SaveModel p b)" by (rule trace_ok_middle)
  then show ?thesis using c by (simp add: event_ok_def consistent_def model_path_def)
qed

text \<open>
  The theorem on one epoch of the small configuration: one checkpoint, named by the three
  environment steps collected before it.
\<close>

theorem checkpoint_named_by_env_step_total_witness:
  "trace (state_of (driver demo_config demo_collab 1 (init_state Map.empty Map.empty))) =
     [MakeDirs ''d'', MakeDirs ''m'', WandbInit ''dreamer-cartpole_swingup'',
      EnvCreate ''cartpole'' ''swingup'' (64, 64) 2, DreamerCreate ''cuda'',
      CollectorCreate True ''cuda'', CollectorCreate False ''cuda'',
      DatasetNew Map.empty,
      Update \<lparr>b_shuffle = 0, b_pos = 0\<rparr>, Update \<lparr>b_shuffle = 0, b_pos = 1\<rparr>,
      Update \<lparr>b_shuffle = 1, b_pos = 0\<rparr>,
      Collect (TrainEpoch 0) 1 False 3,
      SaveEpisode ''d/0.npz'' demo_episode,
      WandbLog 6 1] @
     SaveModel ''m/3.pt''
       [\<lparr>b_shuffle = 0, b_pos = 0\<rparr>, \<lparr>b_shuffle = 0, b_pos = 1\<rparr>, \<lparr>b_shuffle = 1, b_pos = 0\<rparr>] #
     [Collect (TestEpoch 0) 1 False 3, WandbLogTest 1 [7]] \<and>
   ''m/3.pt'' = path_join (model_dir demo_config) (py_str 3 @ ''.pt'') \<and>
   models (state_of (driver demo_config demo_collab 1 (init_state Map.empty Map.empty))) =
     [''m/3.pt'' \<mapsto>
        [\<lparr>b_shuffle = 0, b_pos = 0\<rparr>, \<lparr>b_shuffle = 0, b_pos = 1\<rparr>, \<lparr>b_shuffle = 1, b_pos = 0\<rparr>]]"
proof -
  let ?pre = "[MakeDirs ''d'', MakeDirs ''m'', WandbInit ''dreamer-cartpole_swingup'',
      EnvCreate ''cartpole'' ''swingup'' (64, 64) 2, DreamerCreate ''cuda'',
      CollectorCreate True ''cuda'', CollectorCreate False ''cuda'',
      DatasetNew Map.empty,
      Update \<lparr>b_shuffle = 0, b_pos = 0\<rparr>, Update \<lparr>b_shuffle = 0, b_pos = 1\<rparr>,
      Update \<lparr>b_shuffle = 1, b_pos = 0\<rparr>,
      Collect (TrainEpoch 0) 1 False 3,
      SaveEpisode ''d/0.npz'' demo_episode,
      WandbLog 6 (1::int)] :: (nat, nat, int) event list"
  have h: "trace (state_of (driver demo_config demo_collab 1 (init_state Map.empty Map.empty))) =
     ?pre @ SaveModel ''m/3.pt''
       [\<lparr>b_shuffle = 0, b_pos = 0\<rparr>, \<lparr>b_shuffle = 0, b_pos = 1\<rparr>, \<lparr>b_shuffle = 1, b_pos = 0\<rparr>] #
     [Collect (TestEpoch 0) 1 False 3, WandbLogTest 1 [7]]"
    by (subst demo_run_1) simp
  have e: "env_steps_sum ?pre = 3"
    by (simp add: train_steps_of_def)
  note t = checkpoint_named_by_env_step_total [OF h]
  have c: "''m/3.pt'' = path_join (model_dir demo_config) (py_str 3 @ ''.pt'')"
    using t by (simp only: e)
  have "models (state_of (driver demo_config demo_collab 1 (init_state Map.empty Map.empty))) =
     write_all Map.empty
       (checkpoints (trace (state_of (driver demo_config demo_collab 1 (init_state Map.empty Map.empty)))))"
    using t by blast
  then have m: "models (state_of (driver demo_config demo_collab 1 (init_state Map.empty Map.empty))) =
     [''m/3.pt'' \<mapsto>
        [\<lparr>b_shuffle = 0, b_pos = 0\<rparr>, \<lparr>b_shuffle = 0, b_pos = 1\<rparr>, \<lparr>b_shuffle = 1, b_pos = 0\<rparr>]]"
    by (simp only: h) (simp add: checkpoint_of_def)
  show ?thesis
    by (intro conjI) (rule h, rule c, rule m)
qed

text \<open>
  Claim C5. Take any run. Every figure logged under \<^verbatim>\<open>"env_steps"\<close> is
  \<open>t * action_repeats\<close>, where \<open>t\<close> is the sum of the step counts the training collector has
  returned before the call, that is, the value of \<^verbatim>\<open>total_env_steps\<close> at that moment
  (claim C8). Every checkpoint save comes right after such a call, in the same epoch, and
  is named by \<open>t\<close> itself: the logged figure and the number in the checkpoint's name differ
  by the factor \<open>action_repeats\<close>.
\<close>

theorem every_env_steps_log_and_checkpoint_name:
  "(\<forall>pre v r post.
      trace (state_of (driver cfg ext n (init_state fs ms))) = pre @ WandbLog v r # post \<longrightarrow>
      v = env_steps_sum pre * action_repeats cfg) \<and>
   (\<forall>pre p b post.
      trace (state_of (driver cfg ext n (init_state fs ms))) = pre @ SaveModel p b # post \<longrightarrow>
      (\<exists>pre' r. pre = pre' @ [WandbLog (env_steps_sum pre' * action_repeats cfg) r] \<and>
         p = path_join (model_dir cfg) (py_str (env_steps_sum pre') @ ''.pt'')))"
proof (intro conjI allI impI)
  fix pre v r post
  assume a: "trace (state_of (driver cfg ext n (init_state fs ms))) = pre @ WandbLog v r # post"
  have "consistent cfg ms (state_of (driver cfg ext n (init_state fs ms)))"
    by (rule driver_consistent)
  then have "trace_ok (event_ok cfg) [] (pre @ WandbLog v r # post)"
    using a by (simp add: consistent_def)
  then have "event_ok cfg pre (WandbLog v r)" by (rule trace_ok_middle)
  then show "v = env_steps_sum pre * action_repeats cfg"
    by (simp add: event_ok_def)
next
  fix pre p b post
  assume a: "trace (state_of (driver cfg ext n (init_state fs ms))) = pre @ SaveModel p b # post"
  have "consistent cfg ms (state_of (driver cfg ext n (init_state fs ms)))"
    by (rule driver_consistent)
  then have "trace_ok (event_ok cfg) [] (pre @ SaveModel p b # post)"
    using a by (simp add: consistent_def)
  then have ok: "event_ok cfg pre (SaveModel p b)" by (rule trace_ok_middle)
  then have ne: "pre \<noteq> []" and p: "p = model_path cfg (env_steps_sum pre)"
    by (simp_all add: event_ok_def)
  obtain v r where l: "last pre = WandbLog v r" and v: "v = env_steps_sum pre * action_repeats cfg"
    using ok by (cases "last pre") (simp_all add: event_ok_def)
  define pre' where "pre' = butlast pre"
  have pre: "pre = pre' @ [WandbLog v r]"
    using ne l append_butlast_last_id [of pre] by (simp add: pre'_def)
  have "env_steps_sum (pre' @ [WandbLog v r]) = env_steps_sum pre'"
    by (simp add: train_steps_of_def)
  then have s: "env_steps_sum pre = env_steps_sum pre'"
    by (simp only: pre)
  have "pre = pre' @ [WandbLog (env_steps_sum pre' * action_repeats cfg) r] \<and>
        p = path_join (model_dir cfg) (py_str (env_steps_sum pre') @ ''.pt'')"
    using pre p v s by (simp add: model_path_def)
  then show "\<exists>pre' r. pre = pre' @ [WandbLog (env_steps_sum pre' * action_repeats cfg) r] \<and>
         p = path_join (model_dir cfg) (py_str (env_steps_sum pre') @ ''.pt'')"
    by blast
qed

text \<open>
  The theorem on one epoch of the small configuration: three environment steps collected,
  the log carries 6 (the action repeat is 2) and the checkpoint that follows is \<^verbatim>\<open>3.pt\<close>.
\<close>

theorem every_env_steps_log_and_checkpoint_name_witness:
  "trace (state_of (driver demo_config demo_collab 1 (init_state Map.empty Map.empty))) =
     [MakeDirs ''d'', MakeDirs ''m'', WandbInit ''dreamer-cartpole_swingup'',
      EnvCreate ''cartpole'' ''swingup'' (64, 64) 2, DreamerCreate ''cuda'',
      CollectorCreate True ''cuda'', CollectorCreate False ''cuda'',
      DatasetNew Map.empty,
      Update \<lparr>b_shuffle = 0, b_pos = 0\<rparr>, Update \<lparr>b_shuffle = 0, b_pos = 1\<rparr>,
      Update \<lparr>b_shuffle = 1, b_pos = 0\<rparr>,
      Collect (TrainEpoch 0) 1 False 3,
      SaveEpisode ''d/0.npz'' demo_episode] @
     WandbLog 6 1 #
     [SaveModel ''m/3.pt''
        [\<lparr>b_shuffle = 0, b_pos = 0\<rparr>, \<lparr>b_shuffle = 0, b_pos = 1\<rparr>, \<lparr>b_shuffle = 1, b_pos = 0\<rparr>],
      Collect (TestEpoch 0) 1 False 3, WandbLogTest 1 [7]] \<and>
   (6::int) =
     env_steps_sum
       ([MakeDirs ''d'', MakeDirs ''m'', WandbInit ''dreamer-cartpole_swingup'',
         EnvCreate ''cartpole'' ''swingup'' (64, 64) 2, DreamerCreate ''cuda'',
         CollectorCreate True ''cuda'', CollectorCreate False ''cuda'',
         DatasetNew Map.empty,
         Update \<lparr>b_shuffle = 0, b_pos = 0\<rparr>, Update \<lparr>b_shuffle = 0, b_pos = 1\<rparr>,
         Update \<lparr>b_shuffle = 1, b_pos = 0\<rparr>,
         Collect (TrainEpoch 0) 1 False 3,
         SaveEpisode ''d/0.npz'' demo_episode] :: (nat, nat, int) event list) *
     action_repeats demo_config \<and>
   (\<exists>pre' r.
      [MakeDirs ''d'', MakeDirs ''m'', WandbInit ''dreamer-cartpole_swingup'',
       EnvCreate ''cartpole'' ''swingup'' (64, 64) 2, DreamerCreate ''cuda'',
       CollectorCreate True ''cuda'', CollectorCreate False ''cuda'',
       DatasetNew Map.empty,
       Update \<lparr>b_shuffle = 0, b_pos = 0\<rparr>, Update \<lparr>b_shuffle = 0, b_pos = 1\<rparr>,
       Update \<lparr>b_shuffle = 1, b_pos = 0\<rparr>,
       Collect (TrainEpoch 0) 1 False 3,
       SaveEpisode ''d/0.npz'' demo_episode,
       WandbLog 6 1] =
        pre' @ [WandbLog (env_steps_sum pre' * action_repeats demo_config) (r::int)] \<and>
      ''m/3.pt'' = path_join (model_dir demo_config) (py_str (env_steps_sum pre') @ ''.pt''))"
proof -
  let ?T = "trace (state_of (driver demo_config demo_collab 1 (init_state Map.empty Map.empty)))"
  let ?pre = "[MakeDirs ''d'', MakeDirs ''m'', WandbInit ''dreamer-cartpole_swingup'',
      EnvCreate ''cartpole'' ''swingup'' (64, 64) 2, DreamerCreate ''cuda'',
      CollectorCreate True ''cuda'', CollectorCreate False ''cuda'',
      DatasetNew Map.empty,
      Update \<lparr>b_shuffle = 0, b_pos = 0\<rparr>, Update \<lparr>b_shuffle = 0, b_pos = 1\<rparr>,
      Update \<lparr>b_shuffle = 1, b_pos = 0\<rparr>,
      Collect (TrainEpoch 0) 1 False 3,
      SaveEpisode ''d/0.npz'' demo_episode] :: (nat, nat, int) event list"
  let ?bs = "[\<lparr>b_shuffle = 0, b_pos = 0\<rparr>, \<lparr>b_shuffle = 0, b_pos = 1\<rparr>, \<lparr>b_shuffle = 1, b_pos = 0\<rparr>]"
  have h1: "?T = ?pre @ WandbLog 6 1 #
      [SaveModel ''m/3.pt'' ?bs, Collect (TestEpoch 0) 1 False 3, WandbLogTest 1 [7]]"
    by (subst demo_run_1) simp
  have h2: "?T = (?pre @ [WandbLog 6 1]) @ SaveModel ''m/3.pt'' ?bs #
      [Collect (TestEpoch 0) 1 False 3, WandbLogTest 1 [7]]"
    by (subst demo_run_1) simp
  note t = every_env_steps_log_and_checkpoint_name [of demo_config demo_collab 1 Map.empty Map.empty]
  have a: "(6::int) = env_steps_sum ?pre * action_repeats demo_config"
    using t h1 by blast
  have "\<exists>pre' r. ?pre @ [WandbLog 6 1] =
        pre' @ [WandbLog (env_steps_sum pre' * action_repeats demo_config) (r::int)] \<and>
      ''m/3.pt'' = path_join (model_dir demo_config) (py_str (env_steps_sum pre') @ ''.pt'')"
    using t h2 by blast
  then have b: "\<exists>pre' r.
      [MakeDirs ''d'', MakeDirs ''m'', WandbInit ''dreamer-cartpole_swingup'',
       EnvCreate ''cartpole'' ''swingup'' (64, 64) 2, DreamerCreate ''cuda'',
       CollectorCreate True ''cuda'', CollectorCreate False ''cuda'',
       DatasetNew Map.empty,
       Update \<lparr>b_shuffle = 0, b_pos = 0\<rparr>, Update \<lparr>b_shuffle = 0, b_pos = 1\<rparr>,
       Update \<lparr>b_shuffle = 1, b_pos = 0\<rparr>,
       Collect (TrainEpoch 0) 1 False 3,
       SaveEpisode ''d/0.npz'' demo_episode,
       WandbLog 6 1] =
        pre' @ [WandbLog (env_steps_sum pre' * action_repeats demo_config) (r::int)] \<and>
      ''m/3.pt'' = path_join (model_dir demo_config) (py_str (env_steps_sum pre') @ ''.pt'')"
    by (simp only: append.simps)
  show ?thesis
    by (intro conjI) (rule h1, rule a, rule b)
qed

text \<open>
  Claim C6. The episodes the driver persists are those the training collector returns: all
  the episodes of the prefill call, \<open>i\<close>-th one to \<^verbatim>\<open>pre_{i}.npz\<close>, and in epoch \<open>i\<close> the
  episode \<^verbatim>\<open>data[0]\<close> to \<^verbatim>\<open>{i}.npz\<close> (the episodes of the test collector are logged
  and never written). The writes of a run are, in order, an initial part of: the prefill
  files \<open>0, 1, ...\<close>, then the epoch files \<open>0, ..., n - 1\<close>; all of them when the run returns.
  The file names written are pairwise distinct, so each file is written once, and at the
  end of the run every file written still holds the episode that was written to it. The
  driver has no operation that removes a file.
\<close>

theorem episode_files_written_once_in_order:
  "(\<exists>rest. prefill_saves cfg ext @ map (\<lambda>i. (episode_path cfg i, epoch_episode ext i)) [0..<n] =
      saved (trace (state_of (driver cfg ext n (init_state fs ms)))) @ rest) \<and>
   (raised (driver cfg ext n (init_state fs ms)) = None \<longrightarrow>
      saved (trace (state_of (driver cfg ext n (init_state fs ms)))) =
        prefill_saves cfg ext @ map (\<lambda>i. (episode_path cfg i, epoch_episode ext i)) [0..<n]) \<and>
   map fst (prefill_saves cfg ext) = map (prefill_path cfg) [0..<length (prefill_saves cfg ext)] \<and>
   distinct (map fst (saved (trace (state_of (driver cfg ext n (init_state fs ms)))))) \<and>
   (\<forall>w \<in> set (saved (trace (state_of (driver cfg ext n (init_state fs ms))))).
      files (state_of (driver cfg ext n (init_state fs ms))) (fst w) = Some (snd w))"
proof -
  let ?S = "state_of (driver cfg ext n (init_state fs ms))"
  have sch: "schedule cfg ext n =
      prefill_saves cfg ext @ map (\<lambda>i. (episode_path cfg i, epoch_episode ext i)) [0..<n]"
    by (simp add: schedule_def epoch_save_def [abs_def])
  have q: "(\<exists>rest. schedule cfg ext n = saved (trace ?S) @ rest) \<and> agree ?S"
  proof (rule driver_rule
      [where P = "\<lambda>j s. saved (trace s) = schedule cfg ext j \<and> agree s"
         and Q = "\<lambda>s. (\<exists>rest. schedule cfg ext n = saved (trace s) @ rest) \<and> agree s"])
    show "(\<exists>rest. schedule cfg ext n =
          saved (trace ((init_state fs ms)\<lparr>trace := trace (init_state fs ms) @ [MakeDirs (data_dir cfg)]\<rparr>)) @ rest) \<and>
        agree ((init_state fs ms)\<lparr>trace := trace (init_state fs ms) @ [MakeDirs (data_dir cfg)]\<rparr>)"
      by (simp add: init_state_def save_of_def agree_def)
    show "(\<exists>rest. schedule cfg ext n =
          saved (trace ((init_state fs ms)\<lparr>trace := trace (init_state fs ms) @
            [MakeDirs (data_dir cfg), MakeDirs (model_dir cfg)]\<rparr>)) @ rest) \<and>
        agree ((init_state fs ms)\<lparr>trace := trace (init_state fs ms) @
            [MakeDirs (data_dir cfg), MakeDirs (model_dir cfg)]\<rparr>)"
      by (simp add: init_state_def save_of_def agree_def)
    show "saved (trace (started cfg ext (init_state fs ms))) = schedule cfg ext 0 \<and>
        agree (started cfg ext (init_state fs ms))"
      by (simp add: started_saved started_agree schedule_def)
  next
    fix j s s'
    assume "saved (trace s) = schedule cfg ext j \<and> agree s" and "epoch cfg ext j s = Inr s'"
    then show "saved (trace s') = schedule cfg ext (Suc j) \<and> agree s'"
      by (rule epoch_step_schedule)
  next
    fix j s e s'
    assume "j < n" and "saved (trace s) = schedule cfg ext j \<and> agree s"
      and "epoch cfg ext j s = Inl (e, s')"
    then show "(\<exists>rest. schedule cfg ext n = saved (trace s') @ rest) \<and> agree s'"
      by (rule epoch_fail_schedule)
  next
    fix s :: "('a, 'b, 'c) state"
    assume "saved (trace s) = schedule cfg ext n \<and> agree s"
    then show "(\<exists>rest. schedule cfg ext n = saved (trace s) @ rest) \<and> agree s"
      by simp
  qed
  then obtain rest where rest: "schedule cfg ext n = saved (trace ?S) @ rest" by blast
  have "distinct (map fst (saved (trace ?S) @ rest))"
    using distinct_schedule [of cfg ext n] by (simp only: rest)
  then have d: "distinct (map fst (saved (trace ?S)))" by simp
  have r: "saved (trace ?S) = schedule cfg ext n"
    if ok: "raised (driver cfg ext n (init_state fs ms)) = None"
  proof -
    have "saved (trace ?S) = schedule cfg ext n \<and> agree ?S"
    proof (rule driver_success_rule
        [where P = "\<lambda>j s. saved (trace s) = schedule cfg ext j \<and> agree s", OF ok])
      show "saved (trace (started cfg ext (init_state fs ms))) = schedule cfg ext 0 \<and>
          agree (started cfg ext (init_state fs ms))"
        by (simp add: started_saved started_agree schedule_def)
    next
      fix j s s'
      assume "saved (trace s) = schedule cfg ext j \<and> agree s" and "epoch cfg ext j s = Inr s'"
      then show "saved (trace s') = schedule cfg ext (Suc j) \<and> agree s'"
        by (rule epoch_step_schedule)
    qed
    then show ?thesis by simp
  qed
  show ?thesis
  proof (intro conjI)
    show "\<exists>rest. prefill_saves cfg ext @ map (\<lambda>i. (episode_path cfg i, epoch_episode ext i)) [0..<n] =
        saved (trace ?S) @ rest"
      using rest by (simp only: sch) blast
    show "raised (driver cfg ext n (init_state fs ms)) = None \<longrightarrow>
        saved (trace ?S) = prefill_saves cfg ext @ map (\<lambda>i. (episode_path cfg i, epoch_episode ext i)) [0..<n]"
      using r by (simp only: sch) blast
    show "map fst (prefill_saves cfg ext) = map (prefill_path cfg) [0..<length (prefill_saves cfg ext)]"
      by (rule map_fst_prefill_saves)
    show "distinct (map fst (saved (trace ?S)))" by (rule d)
    show "\<forall>w \<in> set (saved (trace ?S)). files ?S (fst w) = Some (snd w)"
      using q by (simp add: agree_def)
  qed
qed

text \<open>
  The theorem on two epochs of the small configuration with a prefill of one episode: three
  files, written in this order, the first of which still holds its episode at the end.
\<close>

theorem episode_files_written_once_in_order_witness:
  "raised (driver prefill_config demo_collab 2 (init_state Map.empty Map.empty)) = None \<and>
   saved (trace (state_of (driver prefill_config demo_collab 2 (init_state Map.empty Map.empty)))) =
     [(''d/pre_0.npz'', demo_episode), (''d/0.npz'', demo_episode), (''d/1.npz'', demo_episode)] \<and>
   files (state_of (driver prefill_config demo_collab 2 (init_state Map.empty Map.empty)))
     ''d/pre_0.npz'' = Some demo_episode"
proof -
  let ?R = "driver prefill_config demo_collab 2 (init_state Map.empty Map.empty)"
  have r: "raised ?R = None"
    by (rule driver_returns)
       (simp_all add: prefill_config_def demo_config_def default_config_def demo_collab_def)
  note t = episode_files_written_once_in_order [of prefill_config demo_collab 2 Map.empty Map.empty]
  have e: "prefill_saves prefill_config demo_collab @
      map (\<lambda>i. (episode_path prefill_config i, epoch_episode demo_collab i)) [0..<2] =
      [(''d/pre_0.npz'', demo_episode), (''d/0.npz'', demo_episode), (''d/1.npz'', demo_episode)]"
    by (simp add: prefill_saves_def prefill_writes_def prefill_config_def demo_config_def
        default_config_def demo_collab_def episode_path_def prefill_path_def path_join_def
        py_str_def digits.simps digit_char_def epoch_episode_def numeral_2_eq_2)
  have "saved (trace (state_of ?R)) = prefill_saves prefill_config demo_collab @
      map (\<lambda>i. (episode_path prefill_config i, epoch_episode demo_collab i)) [0..<2]"
    using t r by blast
  then have s: "saved (trace (state_of ?R)) =
      [(''d/pre_0.npz'', demo_episode), (''d/0.npz'', demo_episode), (''d/1.npz'', demo_episode)]"
    by (simp only: e)
  have a: "\<forall>w \<in> set (saved (trace (state_of ?R))). files (state_of ?R) (fst w) = Some (snd w)"
    using t by blast
  have "(''d/pre_0.npz'', demo_episode) \<in> set (saved (trace (state_of ?R)))"
    by (simp only: s) simp
  then have "files (state_of ?R) (fst (''d/pre_0.npz'', demo_episode)) =
      Some (snd (''d/pre_0.npz'', demo_episode))"
    using a by blast
  then have f: "files (state_of ?R) ''d/pre_0.npz'' = Some demo_episode"
    by simp
  show ?thesis
    by (intro conjI) (rule r, rule s, rule f)
qed

text \<open>
  Claim C7. In a run of \<open>n\<close> epochs that returns, the checkpoints and the calls of the
  test collector are, in order: one checkpoint followed by one evaluation for each epoch
  \<open>i < n\<close> with \<open>i mod test_every = 0\<close> (epoch 0 among them), and nothing for any other epoch.
  (Python's \<^verbatim>\<open>%\<close> and \<open>mod\<close> on \<open>int\<close> agree for every non-zero divisor; with
  \<open>test_every = 0\<close> the first epoch raises \<^verbatim>\<open>ZeroDivisionError\<close> and no run returns.)
\<close>

theorem checkpoint_then_evaluation_every_test_every:
  assumes "raised (driver cfg ext n (init_state fs ms)) = None"
  shows "evals (trace (state_of (driver cfg ext n (init_state fs ms)))) =
     concat (map (\<lambda>i. [Checkpoint, Evaluation i])
       (filter (\<lambda>i. int i mod test_every cfg = 0) [0..<n]))"
proof -
  have "evals (trace (state_of (driver cfg ext n (init_state fs ms)))) =
      concat (map (epoch_evals cfg) [0..<n])"
  proof (rule driver_success_rule
      [where P = "\<lambda>j s. evals (trace s) = concat (map (epoch_evals cfg) [0..<j])", OF assms])
    show "evals (trace (started cfg ext (init_state fs ms))) = concat (map (epoch_evals cfg) [0..<0])"
      by (simp add: started_evals)
  next
    fix j s s'
    assume "evals (trace s) = concat (map (epoch_evals cfg) [0..<j])"
      and "epoch cfg ext j s = Inr s'"
    then show "evals (trace s') = concat (map (epoch_evals cfg) [0..<Suc j])"
      using epoch_evals_success [of cfg ext j s s'] by simp
  qed
  moreover have "concat (map (epoch_evals cfg) xs) =
      concat (map (\<lambda>i. [Checkpoint, Evaluation i]) (filter (\<lambda>i. int i mod test_every cfg = 0) xs))"
    for xs
    by (induction xs) (simp_all add: epoch_evals_def)
  ultimately show ?thesis by simp
qed

text \<open>
  The theorem on \<^verbatim>\<open>main\<close> itself, with collaborators that never fail: 1000 epochs,
  \<open>test_every = 25\<close>.
\<close>

theorem checkpoint_then_evaluation_every_test_every_witness:
  "raised (main demo_collab (init_state Map.empty Map.empty)) = None \<and>
   evals (trace (state_of (main demo_collab (init_state Map.empty Map.empty)))) =
     concat (map (\<lambda>i. [Checkpoint, Evaluation i]) (filter (\<lambda>i. int i mod 25 = 0) [0..<1000]))"
proof -
  have r: "raised (driver default_config demo_collab 1000 (init_state Map.empty Map.empty)) = None"
    using main_demo_returns [of Map.empty Map.empty] by (simp only: main_def)
  have te: "test_every default_config = 25" by (simp add: default_config_def)
  show ?thesis
    using r checkpoint_then_evaluation_every_test_every [OF r]
    by (simp only: main_def te)
qed

text \<open>
  Claim C8. In the state in which any run of any number of epochs ends, by return or by
  raise, \<^verbatim>\<open>total_env_steps\<close> is the sum of the step counts returned by the calls of the
  training collector made so far (the prefill call and the epochs' calls); the step counts
  returned to the test collector's calls are in the trace and are not part of the sum.
  When the run returns, this is the prefill's count (0 without prefill) plus the counts of
  the epochs \<open>0, ..., n - 1\<close>.
\<close>

theorem total_env_steps_is_training_collect_sum:
  "total_env_steps (state_of (driver cfg ext n (init_state fs ms))) =
     env_steps_sum (trace (state_of (driver cfg ext n (init_state fs ms)))) \<and>
   (raised (driver cfg ext n (init_state fs ms)) = None \<longrightarrow>
      total_env_steps (state_of (driver cfg ext n (init_state fs ms))) =
        prefill_steps cfg ext + (\<Sum>i<n. epoch_steps ext i))"
proof
  show "total_env_steps (state_of (driver cfg ext n (init_state fs ms))) =
     env_steps_sum (trace (state_of (driver cfg ext n (init_state fs ms))))"
    using driver_consistent [of cfg ms ext n fs] by (simp add: consistent_def)
next
  show "raised (driver cfg ext n (init_state fs ms)) = None \<longrightarrow>
      total_env_steps (state_of (driver cfg ext n (init_state fs ms))) =
        prefill_steps cfg ext + (\<Sum>i<n. epoch_steps ext i)"
  proof
    assume ok: "raised (driver cfg ext n (init_state fs ms)) = None"
    show "total_env_steps (state_of (driver cfg ext n (init_state fs ms))) =
        prefill_steps cfg ext + (\<Sum>i<n. epoch_steps ext i)"
    proof (rule driver_success_rule
        [where P = "\<lambda>j s. total_env_steps s = prefill_steps cfg ext + (\<Sum>i<j. epoch_steps ext i)", OF ok])
      show "total_env_steps (started cfg ext (init_state fs ms)) =
          prefill_steps cfg ext + (\<Sum>i<0. epoch_steps ext i)"
        by (simp add: started_state)
    next
      fix j s s'
      assume "total_env_steps s = prefill_steps cfg ext + (\<Sum>i<j. epoch_steps ext i)"
        and "epoch cfg ext j s = Inr s'"
      then show "total_env_steps s' = prefill_steps cfg ext + (\<Sum>i<Suc j. epoch_steps ext i)"
        using epoch_success_total [of cfg ext j s s'] by simp
    qed
  qed
qed

text \<open>
  The theorem on two epochs of the small configuration: no prefill, three steps returned
  in each epoch, and the three steps returned to the test collector in epoch 0 left out.
\<close>

theorem total_env_steps_is_training_collect_sum_witness:
  "raised (driver demo_config demo_collab 2 (init_state Map.empty Map.empty)) = None \<and>
   total_env_steps (state_of (driver demo_config demo_collab 2 (init_state Map.empty Map.empty))) = 6"
proof -
  have "prefill_steps demo_config demo_collab + (\<Sum>i<2. epoch_steps demo_collab i) = 6"
    by (simp add: prefill_steps_def epoch_steps_def demo_config_def default_config_def
        demo_collab_def numeral_2_eq_2)
  then show ?thesis
    using demo_run_2_raised
      total_env_steps_is_training_collect_sum [of demo_config demo_collab 2 Map.empty Map.empty]
    by simp
qed

text \<open>
  Claim C9. The driver is a total function: every run ends, by return or by raise. The
  dataset constructions, optimisation steps and training collections of a run of \<open>n\<close> epochs
  are at most \<open>n * (training_steps + 2)\<close>; when the run returns they are exactly, for each
  epoch \<open>i = 0, ..., n - 1\<close> in turn, one dataset construction, \<open>training_steps\<close>
  optimisation steps, and one call of the training collector for one episode.
  \<^verbatim>\<open>main\<close> is the run of \<open>n = 1000\<close> epochs with \<open>training_steps = 100\<close>.
\<close>

theorem training_loop_bounded:
  "length (loop_steps (trace (state_of (driver cfg ext n (init_state fs ms))))) \<le>
     n * (nat (training_steps cfg) + 2) \<and>
   (raised (driver cfg ext n (init_state fs ms)) = None \<longrightarrow>
      loop_steps (trace (state_of (driver cfg ext n (init_state fs ms)))) =
        concat (map (\<lambda>i. NewDataset # replicate (nat (training_steps cfg)) Optimise @ [CollectEpisodes i 1])
          [0..<n]))"
proof
  let ?c = "nat (training_steps cfg) + 2"
  show "length (loop_steps (trace (state_of (driver cfg ext n (init_state fs ms))))) \<le> n * ?c"
  proof (rule driver_rule
      [where P = "\<lambda>j s. loop_steps (trace s) = concat (map (epoch_loop_steps cfg) [0..<j])"
         and Q = "\<lambda>s. length (loop_steps (trace s)) \<le> n * ?c"])
    show "length (loop_steps (trace ((init_state fs ms)\<lparr>trace := trace (init_state fs ms) @ [MakeDirs (data_dir cfg)]\<rparr>))) \<le> n * ?c"
      by (simp add: init_state_def loop_step_of_def)
    show "length (loop_steps (trace ((init_state fs ms)\<lparr>trace := trace (init_state fs ms) @
        [MakeDirs (data_dir cfg), MakeDirs (model_dir cfg)]\<rparr>))) \<le> n * ?c"
      by (simp add: init_state_def loop_step_of_def)
    show "loop_steps (trace (started cfg ext (init_state fs ms))) =
        concat (map (epoch_loop_steps cfg) [0..<0])"
      by (simp add: started_loop_steps)
  next
    fix j s s'
    assume "loop_steps (trace s) = concat (map (epoch_loop_steps cfg) [0..<j])"
      and "epoch cfg ext j s = Inr s'"
    then show "loop_steps (trace s') = concat (map (epoch_loop_steps cfg) [0..<Suc j])"
      using epoch_loop_steps_success [of cfg ext j s s'] by simp
  next
    fix j s e s'
    assume j: "j < n" and p: "loop_steps (trace s) = concat (map (epoch_loop_steps cfg) [0..<j])"
      and f: "epoch cfg ext j s = Inl (e, s')"
    have "length (loop_steps (trace s')) \<le> length (loop_steps (trace s)) + ?c"
      using epoch_loop_steps_bound [of cfg ext j s] f by simp
    also have "\<dots> = Suc j * ?c"
      by (simp add: p length_concat_epoch_loop_steps)
    also have "\<dots> \<le> n * ?c"
      using j by (intro mult_le_mono1) simp
    finally show "length (loop_steps (trace s')) \<le> n * ?c" .
  next
    fix s :: "('a, 'b, 'c) state"
    assume "loop_steps (trace s) = concat (map (epoch_loop_steps cfg) [0..<n])"
    then show "length (loop_steps (trace s)) \<le> n * ?c"
      by (simp add: length_concat_epoch_loop_steps)
  qed
next
  show "raised (driver cfg ext n (init_state fs ms)) = None \<longrightarrow>
      loop_steps (trace (state_of (driver cfg ext n (init_state fs ms)))) =
        concat (map (\<lambda>i. NewDataset # replicate (nat (training_steps cfg)) Optimise @ [CollectEpisodes i 1])
          [0..<n])"
  proof
    assume ok: "raised (driver cfg ext n (init_state fs ms)) = None"
    have "loop_steps (trace (state_of (driver cfg ext n (init_state fs ms)))) =
        concat (map (epoch_loop_steps cfg) [0..<n])"
    proof (rule driver_success_rule
        [where P = "\<lambda>j s. loop_steps (trace s) = concat (map (epoch_loop_steps cfg) [0..<j])", OF ok])
      show "loop_steps (trace (started cfg ext (init_state fs ms))) =
          concat (map (epoch_loop_steps cfg) [0..<0])"
        by (simp add: started_loop_steps)
    next
      fix j s s'
      assume "loop_steps (trace s) = concat (map (epoch_loop_steps cfg) [0..<j])"
        and "epoch cfg ext j s = Inr s'"
      then show "loop_steps (trace s') = concat (map (epoch_loop_steps cfg) [0..<Suc j])"
        using epoch_loop_steps_success [of cfg ext j s s'] by simp
    qed
    then show "loop_steps (trace (state_of (driver cfg ext n (init_state fs ms)))) =
        concat (map (\<lambda>i. NewDataset # replicate (nat (training_steps cfg)) Optimise @ [CollectEpisodes i 1])
          [0..<n])"
      by (simp add: epoch_loop_steps_def [abs_def])
  qed
qed

text \<open>
  The theorem on \<^verbatim>\<open>main\<close> itself, with collaborators that never fail: 1000 epochs of 100
  optimisation steps and one collection each.
\<close>

theorem training_loop_bounded_witness:
  "raised (main demo_collab (init_state Map.empty Map.empty)) = None \<and>
   loop_steps (trace (state_of (main demo_collab (init_state Map.empty Map.empty)))) =
     concat (map (\<lambda>i. NewDataset # replicate 100 Optimise @ [CollectEpisodes i 1]) [0..<1000])"
proof -
  have r: "raised (driver default_config demo_collab 1000 (init_state Map.empty Map.empty)) = None"
    using main_demo_returns [of Map.empty Map.empty] by (simp only: main_def)
  have ts: "nat (training_steps default_config) = 100" by (simp add: default_config_def)
  show ?thesis
    using r training_loop_bounded [of default_config demo_collab 1000 Map.empty Map.empty]
    by (simp only: main_def ts)
qed

text \<open>
  Claim C10. In every run the directory creations are the first calls and no other call is a
  directory creation: the data directory, then (if that did not raise) the model directory,
  both inside the construction of the configuration and so before the environment, the
  agent and the collectors. If either creation raises, the run ends with \<^verbatim>\<open>OSError\<close> and
  its trace holds nothing but the creations attempted: no environment, no agent, no
  collector, no training step and no collection.
\<close>

theorem directories_first_and_failure_fatal:
  "filter is_MakeDirs (trace (state_of (driver cfg ext n (init_state fs ms)))) =
     take 2 (trace (state_of (driver cfg ext n (init_state fs ms)))) \<and>
   take 2 (trace (state_of (driver cfg ext n (init_state fs ms)))) =
     (if makedirs_raises ext (data_dir cfg) then [MakeDirs (data_dir cfg)]
      else [MakeDirs (data_dir cfg), MakeDirs (model_dir cfg)]) \<and>
   (makedirs_raises ext (data_dir cfg) \<or> makedirs_raises ext (model_dir cfg) \<longrightarrow>
      raised (driver cfg ext n (init_state fs ms)) = Some OSError \<and>
      length (trace (state_of (driver cfg ext n (init_state fs ms)))) \<le> 2)"
proof (cases rule: driver_cases [where cfg = cfg and ext = ext and n = n and st = "init_state fs ms"])
  case data_dir_fails
  then show ?thesis by (simp add: init_state_def)
next
  case model_dir_fails
  then show ?thesis by (simp add: init_state_def)
next
  case runs
  have d: "dirs_first cfg (state_of (epoch_loop cfg ext 0 n (started cfg ext (init_state fs ms))))"
    by (rule epoch_loop_invariant [where I = "dirs_first cfg"])
       (rule started_dirs_first, rule epoch_dirs_first)
  show ?thesis
    using runs dirs_first_filter [OF d] d by (simp add: dirs_first_def)
qed

text \<open>
  The theorem with a model directory that cannot be created: five epochs are asked for and
  the trace ends with the second creation.
\<close>

theorem directories_first_and_failure_fatal_witness:
  "(makedirs_raises readonly_collab (data_dir demo_config) \<or>
    makedirs_raises readonly_collab (model_dir demo_config)) \<and>
   raised (driver demo_config readonly_collab 5 (init_state Map.empty Map.empty)) = Some OSError \<and>
   trace (state_of (driver demo_config readonly_collab 5 (init_state Map.empty Map.empty))) =
     [MakeDirs ''d'', MakeDirs ''m'']"
proof -
  let ?T = "trace (state_of (driver demo_config readonly_collab 5 (init_state Map.empty Map.empty)))"
  have h: "makedirs_raises readonly_collab (data_dir demo_config) \<or>
    makedirs_raises readonly_collab (model_dir demo_config)"
    by (simp add: readonly_collab_def demo_collab_def demo_config_def)
  have n: "\<not> makedirs_raises readonly_collab (data_dir demo_config)"
    by (simp add: readonly_collab_def demo_collab_def demo_config_def)
  note t = directories_first_and_failure_fatal
    [of demo_config readonly_collab 5 Map.empty Map.empty]
  have r: "raised (driver demo_config readonly_collab 5 (init_state Map.empty Map.empty)) = Some OSError"
    and l: "length ?T \<le> 2"
    using t h by blast+
  have "take 2 ?T = [MakeDirs (data_dir demo_config), MakeDirs (model_dir demo_config)]"
    using t n by simp
  then have "?T = [MakeDirs ''d'', MakeDirs ''m'']"
    using l by (simp add: demo_config_def)
  then show ?thesis using h r by blast
qed

end
